theory Spec2Isabelle
  imports Main "HOL-Library.Multiset"
begin

section \<open>JavaScript values and the operators the service uses\<close>

text \<open>
  \<^verbatim>\<open>RealSocialService\<close> reads its records as \<^verbatim>\<open>Record<string, any>\<close>: every field of a
  record that comes back from the database is dynamically typed.  A value is therefore a
  JSON value or \<^verbatim>\<open>undefined\<close> (what reading an absent property gives).  Numbers are the
  integers the service meets (lengths, counters, epoch milliseconds); an object is the list
  of its own properties, the first binding of a key being the one that is read.
\<close>

datatype jsval =
    JUndefined
  | JNull
  | JBool bool
  | JNum int
  | JStr string
  | JArr "jsval list"
  | JObj "(string \<times> jsval) list"

text \<open>
  What a \<^verbatim>\<open>try\<close> block of the service can catch: a \<^verbatim>\<open>TypeError\<close> raised by the
  shaping code itself (a property read on \<^verbatim>\<open>null\<close> or \<^verbatim>\<open>undefined\<close>, a call of a method
  the value does not have), and the two error kinds of the database client.
\<close>

datatype error = TypeError | QueryError | TransportError

fun and_then :: "error + 'a \<Rightarrow> ('a \<Rightarrow> error + 'b) \<Rightarrow> error + 'b" where
  "and_then (Inl e) f = Inl e"
| "and_then (Inr v) f = f v"

text \<open>\<^verbatim>\<open>try { return body } catch (error) { return d }\<close>\<close>

fun catch :: "'a \<Rightarrow> error + 'a \<Rightarrow> 'a" where
  "catch d (Inl e) = d"
| "catch d (Inr v) = v"

text \<open>Truthiness, and the operators \<^verbatim>\<open>a || b\<close> and \<^verbatim>\<open>a && b\<close>, which return an operand.\<close>

fun truthy :: "jsval \<Rightarrow> bool" where
  "truthy JUndefined = False"
| "truthy JNull = False"
| "truthy (JBool b) = b"
| "truthy (JNum n) = (n \<noteq> 0)"
| "truthy (JStr s) = (s \<noteq> [])"
| "truthy (JArr xs) = True"
| "truthy (JObj kvs) = True"

definition js_or :: "jsval \<Rightarrow> jsval \<Rightarrow> jsval" where
  "js_or a b = (if truthy a then a else b)"

definition js_and :: "jsval \<Rightarrow> jsval \<Rightarrow> jsval" where
  "js_and a b = (if truthy a then b else a)"

fun nullish :: "jsval \<Rightarrow> bool" where
  "nullish JUndefined = True"
| "nullish JNull = True"
| "nullish v = False"

text \<open>
  \<^verbatim>\<open>v.k\<close> on a value that is neither \<^verbatim>\<open>null\<close> nor \<^verbatim>\<open>undefined\<close>: an own property of an
  object, the \<^verbatim>\<open>length\<close> of an array or a string, \<^verbatim>\<open>undefined\<close> otherwise.
\<close>

fun fld :: "jsval \<Rightarrow> string \<Rightarrow> jsval" where
  "fld (JObj kvs) k = (case map_of kvs k of None \<Rightarrow> JUndefined | Some v \<Rightarrow> v)"
| "fld (JArr xs) k = (if k = ''length'' then JNum (int (length xs)) else JUndefined)"
| "fld (JStr s) k = (if k = ''length'' then JNum (int (length s)) else JUndefined)"
| "fld v k = JUndefined"

text \<open>\<^verbatim>\<open>v.k\<close> in general: reading a property of \<^verbatim>\<open>null\<close> or \<^verbatim>\<open>undefined\<close> throws.\<close>

definition js_get :: "jsval \<Rightarrow> string \<Rightarrow> error + jsval" where
  "js_get v k = (if nullish v then Inl TypeError else Inr (fld v k))"

text \<open>\<^verbatim>\<open>obj.k = v\<close> on an object.\<close>

fun set_fld :: "string \<Rightarrow> jsval \<Rightarrow> jsval \<Rightarrow> jsval" where
  "set_fld k v (JObj kvs) =
     (if k \<in> fst ` set kvs then JObj (map (\<lambda>(k', v'). if k' = k then (k', v) else (k', v')) kvs)
      else JObj (kvs @ [(k, v)]))"
| "set_fld k v w = w"

text \<open>\<^verbatim>\<open>xs[0]\<close> on an array: \<^verbatim>\<open>undefined\<close> when the array is empty.\<close>

fun index0 :: "jsval list \<Rightarrow> jsval" where
  "index0 [] = JUndefined"
| "index0 (x # xs) = x"

text \<open>
  \<^verbatim>\<open>xs.map(f)\<close> with a callback that may throw: the first exception ends the traversal.
\<close>

fun map_err :: "('a \<Rightarrow> error + 'b) \<Rightarrow> 'a list \<Rightarrow> error + 'b list" where
  "map_err f [] = Inr []"
| "map_err f (x # xs) = and_then (f x) (\<lambda>y. and_then (map_err f xs) (\<lambda>ys. Inr (y # ys)))"

text \<open>
  A \<^verbatim>\<open>for (const x of xs)\<close> loop whose body either skips the element (\<^verbatim>\<open>continue\<close>,
  \<open>None\<close>) or pushes one result (\<open>Some\<close>), and may throw.
\<close>

fun for_push :: "('a \<Rightarrow> error + 'b option) \<Rightarrow> 'a list \<Rightarrow> error + 'b list" where
  "for_push body [] = Inr []"
| "for_push body (x # xs) =
     and_then (body x) (\<lambda>r. and_then (for_push body xs) (\<lambda>ys.
       Inr (case r of None \<Rightarrow> ys | Some y \<Rightarrow> y # ys)))"

text \<open>
  What \<^verbatim>\<open>for (const x of v)\<close> iterates over: the elements of an array, the characters of a
  string; any other value is not iterable.
\<close>

fun js_iter :: "jsval \<Rightarrow> error + jsval list" where
  "js_iter (JArr xs) = Inr xs"
| "js_iter (JStr s) = Inr (map (\<lambda>c. JStr [c]) s)"
| "js_iter v = Inl TypeError"

text \<open>
  \<^verbatim>\<open>v.some(p)\<close>: on an array the elements are tested in order and the scan stops at the first
  one that satisfies \<open>p\<close>; no other value of the model has the method.
\<close>

fun some_list :: "(jsval \<Rightarrow> error + bool) \<Rightarrow> jsval list \<Rightarrow> error + bool" where
  "some_list p [] = Inr False"
| "some_list p (x # xs) = and_then (p x) (\<lambda>b. if b then Inr True else some_list p xs)"

fun js_some :: "jsval \<Rightarrow> (jsval \<Rightarrow> error + bool) \<Rightarrow> error + bool" where
  "js_some (JArr xs) p = some_list p xs"
| "js_some v p = Inl TypeError"

text \<open>
  \<^verbatim>\<open>xs.slice(0, n)\<close> for an integer \<open>n\<close>: a negative \<open>n\<close> counts from the end of the array.
\<close>

definition slice0 :: "'a list \<Rightarrow> int \<Rightarrow> 'a list" where
  "slice0 xs n =
     (if n < 0 then take (nat (max (int (length xs) + n) 0)) xs
      else take (nat (min n (int (length xs)))) xs)"

text \<open>\<^verbatim>\<open>s.slice(-8)\<close> on a string: its last eight characters, or all of a shorter one.\<close>

definition last8 :: "string \<Rightarrow> string" where
  "last8 s = drop (length s - 8) s"

text \<open>The decimal digits of a number, as a template literal prints it.\<close>

function decimal :: "nat \<Rightarrow> string" where
  "decimal n =
     (if n < 10 then [''0123456789'' ! n]
      else decimal (n div 10) @ [''0123456789'' ! (n mod 10)])"
  by pat_completeness auto
termination
  by (relation "measure id") auto

text \<open>
  \<^verbatim>\<open>xs.sort(cmp)\<close>.  The array is sorted in place, \<^verbatim>\<open>undefined\<close> elements go to the end
  without being compared, and an exception of the comparator ends the sort.  The sort is
  stable; it is written here as the insertion of each element, left to right, behind the
  elements that do not sort after it (\<open>cmp x y < 0\<close>: \<open>x\<close> sorts before \<open>y\<close>).  A
  comparator result that is not a number (\<open>None\<close>) counts as \<open>0\<close>.  The language fixes the
  result for a consistent comparator only: with one, every stable sort returns this order.
  Where a comparison is not a number for some pairs only (a record without a valid date
  among dated ones) the comparator is not consistent and the order is the engine's own,
  which need not be the one computed here.
\<close>

fun insert_by :: "('a \<Rightarrow> 'a \<Rightarrow> error + int option) \<Rightarrow> 'a \<Rightarrow> 'a list \<Rightarrow> error + 'a list" where
  "insert_by cmp x [] = Inr [x]"
| "insert_by cmp x (y # ys) =
     and_then (cmp x y) (\<lambda>c.
       if (case c of None \<Rightarrow> False | Some d \<Rightarrow> d < 0) then Inr (x # y # ys)
       else and_then (insert_by cmp x ys) (\<lambda>zs. Inr (y # zs)))"

fun sort_into :: "('a \<Rightarrow> 'a \<Rightarrow> error + int option) \<Rightarrow> 'a list \<Rightarrow> 'a list \<Rightarrow> error + 'a list" where
  "sort_into cmp acc [] = Inr acc"
| "sort_into cmp acc (x # xs) = and_then (insert_by cmp x acc) (\<lambda>acc'. sort_into cmp acc' xs)"

definition js_sort :: "(jsval \<Rightarrow> jsval \<Rightarrow> error + int option) \<Rightarrow> jsval list \<Rightarrow> error + jsval list" where
  "js_sort cmp xs =
     and_then (sort_into cmp [] (filter (\<lambda>x. x \<noteq> JUndefined) xs)) (\<lambda>ys.
       Inr (ys @ filter (\<lambda>x. x = JUndefined) xs))"


section \<open>The database client, as the service calls it\<close>

text \<open>
  The query builder of \<^verbatim>\<open>@onchaindb/sdk\<close> is not part of the repository; the service only
  calls it.  A finished builder chain is the query specification it describes: the
  collection, the \<^verbatim>\<open>whereField\<close> predicates, the \<^verbatim>\<open>joinOne\<close>/\<^verbatim>\<open>joinMany\<close>
  specifications (with the joins nested in them), the projection and the pagination.
\<close>

datatype field_predicate = FieldEquals string jsval | FieldIsNull string

datatype cardinality = OneToOne | OneToMany

datatype selection = SelectAll | SelectFields "string list"

datatype join_spec =
  Join string string string string cardinality selection "join_spec list"
  \<comment> \<open>alias, target collection, \<^verbatim>\<open>onField\<close>, \<^verbatim>\<open>equals\<close> expression, cardinality, projection, nested joins\<close>

record query_spec =
  collection :: string
  predicates :: "field_predicate list"
  joins :: "join_spec list"
  projection :: selection
  limit :: "int option"
  offset :: int

text \<open>
  What \<^verbatim>\<open>execute()\<close> resolves to.  The service guards every use of \<^verbatim>\<open>result.records\<close> with
  \<^verbatim>\<open>!result.records\<close>: the property may be missing or \<^verbatim>\<open>null\<close>, and is an array of
  records otherwise.
\<close>

datatype records_field = Absent | Null | Rows "jsval list"

record response =
  records :: records_field

text \<open>
  The two calls the service makes on its client: \<^verbatim>\<open>execute\<close>, which reads, and
  \<^verbatim>\<open>store(request, paymentCallback)\<close>, which writes the records \<^verbatim>\<open>data\<close> to a collection.
  Either may throw.  The state of the backing store is passed explicitly; a call that
  throws leaves it as it was.
\<close>

record 'st client =
  execute :: "'st \<Rightarrow> query_spec \<Rightarrow> error + response"
  store :: "'st \<Rightarrow> string \<Rightarrow> jsval list \<Rightarrow> error + 'st"

record SocialServiceConfig =
  endpoint :: string
  appId :: string
  apiKey :: "string option"
  currentUserAddress :: "string option"

text \<open>
  \<^verbatim>\<open>this.config.currentUserAddress\<close> where it is used as a condition: the address when it
  is set and not the empty string.
\<close>

definition caller :: "SocialServiceConfig \<Rightarrow> string option" where
  "caller cfg =
     (case currentUserAddress cfg of
        None \<Rightarrow> None
      | Some a \<Rightarrow> if a = [] then None else Some a)"

text \<open>
  What the service reads from its environment: \<^verbatim>\<open>new Date(v).getTime()\<close> (with \<open>None\<close>
  for \<^verbatim>\<open>NaN\<close>, the time of an invalid date), \<^verbatim>\<open>Date.now()\<close>,
  \<^verbatim>\<open>new Date().toISOString()\<close> and \<^verbatim>\<open>Math.random().toString(36)\<close>.  One call of the
  service reads one instant of the clock.
\<close>

record runtime =
  getTime :: "jsval \<Rightarrow> int option"
  date_now :: nat
  toISOString :: string
  random36 :: string

text \<open>A parameter with a default value: the default stands in for an omitted argument.\<close>

fun default_arg :: "'a \<Rightarrow> 'a option \<Rightarrow> 'a" where
  "default_arg d None = d"
| "default_arg d (Some v) = v"

subsection \<open>The queries\<close>

definition author_info_join :: join_spec where
  "author_info_join =
     Join ''author_info'' ''users'' ''address'' ''$data.author'' OneToOne
       (SelectFields [''address'', ''display_name'', ''bio'', ''avatar_url'', ''verified'']) []"

definition quote_tweet_join :: "join_spec list \<Rightarrow> join_spec" where
  "quote_tweet_join nested =
     Join ''quote_tweet'' ''tweets'' ''id'' ''$data.quote_tweet_id'' OneToOne
       (SelectFields [''id'', ''content'', ''author'', ''like_count'', ''created_at'']) nested"

definition timeline_query :: "int \<Rightarrow> int \<Rightarrow> query_spec" where
  "timeline_query lim off =
     \<lparr>collection = ''tweets'',
      predicates = [FieldIsNull ''reply_to_id''],
      joins =
        [author_info_join,
         Join ''likes'' ''likes'' ''tweet_id'' ''$data.id'' OneToMany
           (SelectFields [''user'', ''created_at'']) [],
         Join ''retweets'' ''retweets'' ''tweet_id'' ''$data.id'' OneToMany
           (SelectFields [''user'', ''created_at'']) [],
         Join ''replies'' ''tweets'' ''reply_to_id'' ''$data.id'' OneToMany
           (SelectFields [''id'', ''author'', ''created_at'']) [],
         Join ''quotes'' ''tweets'' ''quote_tweet_id'' ''$data.id'' OneToMany
           (SelectFields [''id'', ''author'', ''created_at'']) [],
         quote_tweet_join [author_info_join]],
      projection = SelectAll,
      limit = Some lim,
      offset = off\<rparr>"

definition author_query :: "string \<Rightarrow> int \<Rightarrow> query_spec" where
  "author_query authorAddress lim =
     \<lparr>collection = ''tweets'',
      predicates = [FieldEquals ''author'' (JStr authorAddress)],
      joins = [author_info_join, quote_tweet_join [author_info_join]],
      projection = SelectAll,
      limit = Some lim,
      offset = 0\<rparr>"

definition tweet_with_replies_query :: "string \<Rightarrow> query_spec" where
  "tweet_with_replies_query tweetId =
     \<lparr>collection = ''tweets'',
      predicates = [FieldEquals ''id'' (JStr tweetId)],
      joins =
        [author_info_join,
         Join ''replies'' ''tweets'' ''reply_to_id'' ''$data.id'' OneToMany SelectAll
           [author_info_join, quote_tweet_join [author_info_join]],
         quote_tweet_join [author_info_join]],
      projection = SelectAll,
      limit = Some 1,
      offset = 0\<rparr>"

definition tweet_query :: "string \<Rightarrow> query_spec" where
  "tweet_query tweetId =
     \<lparr>collection = ''tweets'',
      predicates = [FieldEquals ''id'' (JStr tweetId)],
      joins = [],
      projection = SelectAll,
      limit = Some 1,
      offset = 0\<rparr>"

definition replies_query :: "string \<Rightarrow> int \<Rightarrow> query_spec" where
  "replies_query tweetId lim =
     \<lparr>collection = ''tweets'',
      predicates = [FieldEquals ''reply_to_id'' (JStr tweetId)],
      joins = [author_info_join, quote_tweet_join []],
      projection = SelectAll,
      limit = Some lim,
      offset = 0\<rparr>"

definition like_query :: "jsval \<Rightarrow> jsval \<Rightarrow> query_spec" where
  "like_query userAddress tweetId =
     \<lparr>collection = ''likes'',
      predicates = [FieldEquals ''user'' userAddress, FieldEquals ''tweet_id'' tweetId],
      joins = [],
      projection = SelectAll,
      limit = Some 1,
      offset = 0\<rparr>"

definition follows_query :: "string \<Rightarrow> string \<Rightarrow> query_spec" where
  "follows_query followerAddress followingAddress =
     \<lparr>collection = ''follows'',
      predicates =
        [FieldEquals ''follower'' (JStr followerAddress),
         FieldEquals ''following'' (JStr followingAddress)],
      joins = [],
      projection = SelectAll,
      limit = Some 10,
      offset = 0\<rparr>"

definition user_query :: "string \<Rightarrow> query_spec" where
  "user_query address =
     \<lparr>collection = ''users'',
      predicates = [FieldEquals ''address'' (JStr address)],
      joins = [],
      projection = SelectAll,
      limit = Some 1,
      offset = 0\<rparr>"

definition user_with_tweets_query :: "string \<Rightarrow> query_spec" where
  "user_with_tweets_query address =
     \<lparr>collection = ''users'',
      predicates = [FieldEquals ''address'' (JStr address)],
      joins =
        [Join ''user_tweets'' ''tweets'' ''author'' ''$data.address'' OneToMany SelectAll [],
         Join ''followers'' ''follows'' ''following'' ''$data.address'' OneToMany SelectAll [],
         Join ''following'' ''follows'' ''follower'' ''$data.address'' OneToMany SelectAll []],
      projection = SelectAll,
      limit = Some 1,
      offset = 0\<rparr>"

section \<open>RealSocialService: the read operations\<close>

text \<open>
  The view type \<^verbatim>\<open>TweetWithContext\<close>, with the fields \<^verbatim>\<open>mapTweetData\<close> sets (\<open>id'\<close> is
  the field \<^verbatim>\<open>id\<close>).  \<open>author_info\<close> and \<open>quote_tweet\<close> are the optional properties the
  shaping code adds when the joined value is truthy.
\<close>

record TweetWithContext =
  id' :: jsval
  author :: jsval
  content :: jsval
  content_type :: jsval
  hashtags :: jsval
  mentions :: jsval
  media_urls :: jsval
  reply_to_id :: jsval
  retweet_of_id :: jsval
  quote_tweet_id :: jsval
  like_count :: jsval
  retweet_count :: jsval
  reply_count :: jsval
  quote_count :: jsval
  created_at :: jsval
  updated_at :: jsval
  is_deleted :: jsval
  visibility :: jsval
  language :: jsval
  location :: jsval
  engagement_score :: jsval
  user_liked :: jsval
  user_retweeted :: jsval
  author_info :: "jsval option"
  quote_tweet :: "jsval option"

text \<open>
  \<^verbatim>\<open>mapTweetData(tweetData, user_liked = false, user_retweeted = false)\<close>: an argument that
  is \<^verbatim>\<open>undefined\<close> takes the default.  The first property read throws when \<open>tweetData\<close> is
  \<^verbatim>\<open>null\<close> or \<^verbatim>\<open>undefined\<close>.
\<close>

definition mapTweetData :: "jsval \<Rightarrow> jsval \<Rightarrow> jsval \<Rightarrow> error + TweetWithContext" where
  "mapTweetData tweetData user_liked_arg user_retweeted_arg =
     (if nullish tweetData then Inl TypeError
      else Inr
        \<lparr>id' = fld tweetData ''id'',
         author = fld tweetData ''author'',
         content = fld tweetData ''content'',
         content_type = js_or (fld tweetData ''content_type'') (JStr ''text''),
         hashtags = js_or (fld tweetData ''hashtags'') (JArr []),
         mentions = js_or (fld tweetData ''mentions'') (JArr []),
         media_urls = fld tweetData ''media_urls'',
         reply_to_id = fld tweetData ''reply_to_id'',
         retweet_of_id = fld tweetData ''retweet_of_id'',
         quote_tweet_id = fld tweetData ''quote_tweet_id'',
         like_count = js_or (fld tweetData ''like_count'') (JNum 0),
         retweet_count = js_or (fld tweetData ''retweet_count'') (JNum 0),
         reply_count = js_or (fld tweetData ''reply_count'') (JNum 0),
         quote_count = js_or (fld tweetData ''quote_count'') (JNum 0),
         created_at = js_or (fld tweetData ''timestamp'') (fld tweetData ''created_at''),
         updated_at = js_or (fld tweetData ''timestamp'') (fld tweetData ''updated_at''),
         is_deleted = js_or (fld tweetData ''is_deleted'') (JBool False),
         visibility = js_or (fld tweetData ''visibility'') (JStr ''public''),
         language = fld tweetData ''language'',
         location = fld tweetData ''location'',
         engagement_score = js_or (fld tweetData ''engagement_score'') (JNum 0),
         user_liked = (if user_liked_arg = JUndefined then JBool False else user_liked_arg),
         user_retweeted =
           (if user_retweeted_arg = JUndefined then JBool False else user_retweeted_arg),
         author_info = None,
         quote_tweet = None\<rparr>)"

text \<open>
  \<^verbatim>\<open>const authorInfo = r.author_info || null; const quotedTweet = r.quote_tweet || null;\<close>
  and, after \<^verbatim>\<open>mapTweetData\<close>,
  \<^verbatim>\<open>if (authorInfo) t.author_info = authorInfo; if (quotedTweet) t.quote_tweet = quotedTweet;\<close>
\<close>

definition joined_or_null :: "jsval \<Rightarrow> string \<Rightarrow> jsval option" where
  "joined_or_null r alias =
     (let v = js_or (fld r alias) JNull in if truthy v then Some v else None)"

definition with_joined :: "jsval \<Rightarrow> TweetWithContext \<Rightarrow> TweetWithContext" where
  "with_joined r t =
     t\<lparr>author_info := joined_or_null r ''author_info'',
       quote_tweet := joined_or_null r ''quote_tweet''\<rparr>"

subsection \<open>getPublicTimeline\<close>

text \<open>The callback of \<^verbatim>\<open>result.records.map\<close>: one record of the timeline to its view.\<close>

definition timeline_record :: "SocialServiceConfig \<Rightarrow> jsval \<Rightarrow> error + TweetWithContext" where
  "timeline_record cfg tweetData =
     (if nullish tweetData then Inl TypeError
      else
        let likes = js_or (fld tweetData ''likes'') (JArr []);
            like_count = fld likes ''length'' in
        and_then
          (case caller cfg of
             Some a \<Rightarrow>
               js_some likes (\<lambda>like. and_then (js_get like ''user'') (\<lambda>u. Inr (u = JStr a)))
           | None \<Rightarrow> Inr False)
          (\<lambda>user_liked.
            let retweets = js_or (fld tweetData ''retweets'') (JArr []);
                retweet_count = fld retweets ''length'';
                replies = js_or (fld tweetData ''replies'') (JArr []);
                reply_count = fld replies ''length'';
                quotes = js_or (fld tweetData ''quotes'') (JArr []);
                quote_count = fld quotes ''length'' in
            and_then (mapTweetData tweetData (JBool user_liked) (JBool False))
              (\<lambda>tweetWithContext.
                Inr (with_joined tweetData
                  (tweetWithContext
                     \<lparr>like_count := like_count,
                      retweet_count := retweet_count,
                      reply_count := reply_count,
                      quote_count := quote_count\<rparr>)))))"

definition getPublicTimeline ::
  "(query_spec \<Rightarrow> error + response) \<Rightarrow> SocialServiceConfig \<Rightarrow> int option \<Rightarrow> int option
     \<Rightarrow> TweetWithContext list" where
  "getPublicTimeline ex cfg limit_arg offset_arg =
     catch []
       (and_then (ex (timeline_query (default_arg 20 limit_arg) (default_arg 0 offset_arg)))
          (\<lambda>result.
            case records result of
              Rows rs \<Rightarrow> map_err (timeline_record cfg) rs
            | _ \<Rightarrow> Inr []))"

subsection \<open>getTweetsByAuthor\<close>

definition author_record :: "jsval \<Rightarrow> error + TweetWithContext" where
  "author_record tweetData =
     (if nullish tweetData then Inl TypeError
      else and_then (mapTweetData tweetData JUndefined JUndefined)
             (\<lambda>tweetWithContext. Inr (with_joined tweetData tweetWithContext)))"

definition getTweetsByAuthor ::
  "(query_spec \<Rightarrow> error + response) \<Rightarrow> string \<Rightarrow> int option \<Rightarrow> TweetWithContext list" where
  "getTweetsByAuthor ex authorAddress limit_arg =
     catch []
       (and_then (ex (author_query authorAddress (default_arg 20 limit_arg)))
          (\<lambda>result.
            case records result of
              Rows rs \<Rightarrow> map_err author_record rs
            | _ \<Rightarrow> Inr []))"

subsection \<open>getTweetWithReplies and getReplies\<close>

text \<open>
  The block both operations run for the main tweet and for every reply:
  \<^verbatim>\<open>let user_liked = false;
  if (this.config.currentUserAddress) {
    const likeResult = await ... .collection("likes") ... .limit(1).execute();
    user_liked = likeResult.records && likeResult.records.length > 0;
  }\<close>
\<close>

fun has_records :: "records_field \<Rightarrow> jsval" where
  "has_records Absent = JUndefined"
| "has_records Null = JNull"
| "has_records (Rows rs) = JBool (0 < length rs)"

definition user_liked_of ::
  "(query_spec \<Rightarrow> error + response) \<Rightarrow> SocialServiceConfig \<Rightarrow> jsval \<Rightarrow> error + jsval" where
  "user_liked_of ex cfg tweetId =
     (case caller cfg of
        None \<Rightarrow> Inr (JBool False)
      | Some a \<Rightarrow>
          and_then (ex (like_query (JStr a) tweetId))
            (\<lambda>likeResult. Inr (has_records (records likeResult))))"

text \<open>
  The body of the loop over the replies: a record without truthy \<^verbatim>\<open>content\<close> is skipped
  (\<^verbatim>\<open>continue\<close>), any other is pushed as a view.
\<close>

definition reply_record ::
  "(query_spec \<Rightarrow> error + response) \<Rightarrow> SocialServiceConfig \<Rightarrow> jsval
     \<Rightarrow> error + TweetWithContext option" where
  "reply_record ex cfg replyRecord =
     and_then (js_get replyRecord ''content'')
       (\<lambda>c.
         if \<not> truthy c then Inr None
         else
           and_then (user_liked_of ex cfg (fld replyRecord ''id''))
             (\<lambda>reply_user_liked.
               and_then (mapTweetData replyRecord reply_user_liked (JBool False))
                 (\<lambda>replyWithContext. Inr (Some (with_joined replyRecord replyWithContext)))))"

record tweet_with_replies =
  tweet :: "TweetWithContext option"
  replies :: "TweetWithContext list"
  total_replies :: nat

definition no_tweet :: tweet_with_replies where
  "no_tweet = \<lparr>tweet = None, replies = [], total_replies = 0\<rparr>"

definition getTweetWithReplies ::
  "(query_spec \<Rightarrow> error + response) \<Rightarrow> SocialServiceConfig \<Rightarrow> string \<Rightarrow> tweet_with_replies" where
  "getTweetWithReplies ex cfg tweetId =
     catch no_tweet
       (and_then (ex (tweet_with_replies_query tweetId))
          (\<lambda>result.
            case records result of
              Rows (tweetWithJoins # rest) \<Rightarrow>
                and_then (user_liked_of ex cfg (JStr tweetId))
                  (\<lambda>user_liked.
                    and_then (js_get tweetWithJoins ''author_info'')
                      (\<lambda>authorInfo.
                        and_then (mapTweetData tweetWithJoins user_liked (JBool False))
                          (\<lambda>t.
                            and_then (js_iter (js_or (fld tweetWithJoins ''replies'') (JArr [])))
                              (\<lambda>repliesData.
                                and_then (for_push (reply_record ex cfg) repliesData)
                                  (\<lambda>rs.
                                    Inr \<lparr>tweet = Some (with_joined tweetWithJoins t),
                                         replies = rs,
                                         total_replies = length rs\<rparr>)))))
            | _ \<Rightarrow> Inr no_tweet))"

definition getReplies ::
  "(query_spec \<Rightarrow> error + response) \<Rightarrow> SocialServiceConfig \<Rightarrow> string \<Rightarrow> int option
     \<Rightarrow> TweetWithContext list" where
  "getReplies ex cfg tweetId limit_arg =
     catch []
       (and_then (ex (replies_query tweetId (default_arg 50 limit_arg)))
          (\<lambda>result.
            case records result of
              Rows rs \<Rightarrow> for_push (reply_record ex cfg) rs
            | _ \<Rightarrow> Inr []))"

subsection \<open>getTweet and getUser\<close>

definition getTweet :: "(query_spec \<Rightarrow> error + response) \<Rightarrow> string \<Rightarrow> TweetWithContext option" where
  "getTweet ex tweetId =
     catch None
       (and_then (ex (tweet_query tweetId))
          (\<lambda>result.
            case records result of
              Rows (t # rest) \<Rightarrow>
                and_then (mapTweetData t JUndefined JUndefined) (\<lambda>v. Inr (Some v))
            | _ \<Rightarrow> Inr None))"

definition getUser :: "(query_spec \<Rightarrow> error + response) \<Rightarrow> string \<Rightarrow> jsval" where
  "getUser ex address =
     catch JNull
       (and_then (ex (user_query address))
          (\<lambda>result.
            case records result of
              Rows (u # rest) \<Rightarrow> Inr u
            | _ \<Rightarrow> Inr JNull))"

subsection \<open>getUserWithTweets\<close>

text \<open>
  \<^verbatim>\<open>const {user_tweets, followers: followersData, following: followingData, ...userData} =
  userRecord\<close>: the rest object holds the own enumerable properties that are not named; an
  array or a string has its indices as properties, a number or a boolean has none.
\<close>

definition indexed :: "jsval list \<Rightarrow> (string \<times> jsval) list" where
  "indexed xs = zip (map decimal [0..<length xs]) xs"

fun rest_without :: "string list \<Rightarrow> jsval \<Rightarrow> jsval" where
  "rest_without ks (JObj kvs) = JObj (filter (\<lambda>kv. fst kv \<notin> set ks) kvs)"
| "rest_without ks (JArr xs) = JObj (indexed xs)"
| "rest_without ks (JStr s) = JObj (indexed (map (\<lambda>c. JStr [c]) s))"
| "rest_without ks v = JObj []"

text \<open>\<^verbatim>\<open>Array.isArray(v) ? v : []\<close>\<close>

fun array_or_empty :: "jsval \<Rightarrow> jsval list" where
  "array_or_empty (JArr xs) = xs"
| "array_or_empty v = []"

text \<open>The filter \<^verbatim>\<open>(tweet) => tweet && tweet.content\<close>.\<close>

definition valid_tweet :: "jsval \<Rightarrow> bool" where
  "valid_tweet t = truthy (js_and t (fld t ''content''))"

record user_with_tweets =
  user :: jsval
  tweets :: "TweetWithContext list"
  followers :: "jsval list"
  following :: "jsval list"

definition no_user :: user_with_tweets where
  "no_user = \<lparr>user = JNull, tweets = [], followers = [], following = []\<rparr>"

definition getUserWithTweets ::
  "(query_spec \<Rightarrow> error + response) \<Rightarrow> string \<Rightarrow> int option \<Rightarrow> user_with_tweets" where
  "getUserWithTweets ex address limit_arg =
     catch no_user
       (and_then (ex (user_with_tweets_query address))
          (\<lambda>result.
            case records result of
              Rows (userRecord # rest) \<Rightarrow>
                if nullish userRecord then Inl TypeError
                else
                  let user_tweets = fld userRecord ''user_tweets'';
                      followersData = fld userRecord ''followers'';
                      followingData = fld userRecord ''following'';
                      userData =
                        rest_without [''user_tweets'', ''followers'', ''following''] userRecord;
                      tweetsArray = js_or user_tweets (JArr []) in
                  and_then
                    (case tweetsArray of
                       JArr ts \<Rightarrow>
                         map_err (\<lambda>t. mapTweetData t JUndefined JUndefined)
                           (slice0 (filter valid_tweet ts) (default_arg 50 limit_arg))
                     | _ \<Rightarrow> Inr [])
                    (\<lambda>ts.
                      let fs = array_or_empty followersData;
                          gs = array_or_empty followingData in
                      Inr \<lparr>user =
                             set_fld ''following_count'' (JNum (int (length gs)))
                               (set_fld ''follower_count'' (JNum (int (length fs))) userData),
                           tweets = ts,
                           followers = fs,
                           following = gs\<rparr>)
            | _ \<Rightarrow> Inr no_user))"

section \<open>RealSocialService: follows and likes\<close>

text \<open>
  The comparator of the three follow operations,
  \<^verbatim>\<open>(a, b) => new Date(b.updated_at || b.created_at).getTime()
             - new Date(a.updated_at || a.created_at).getTime()\<close>,
  and the code that uses it: sort the records returned by the query, take the first.
\<close>

definition version_time :: "runtime \<Rightarrow> jsval \<Rightarrow> int option" where
  "version_time rt a = getTime rt (js_or (fld a ''updated_at'') (fld a ''created_at''))"

definition follow_time :: "runtime \<Rightarrow> jsval \<Rightarrow> error + int option" where
  "follow_time rt a = (if nullish a then Inl TypeError else Inr (version_time rt a))"

definition by_latest :: "runtime \<Rightarrow> jsval \<Rightarrow> jsval \<Rightarrow> error + int option" where
  "by_latest rt a b =
     and_then (follow_time rt b) (\<lambda>tb. and_then (follow_time rt a) (\<lambda>ta.
       Inr (case tb of None \<Rightarrow> None
            | Some x \<Rightarrow> (case ta of None \<Rightarrow> None | Some y \<Rightarrow> Some (x - y)))))"

definition latest_version :: "runtime \<Rightarrow> jsval list \<Rightarrow> error + jsval" where
  "latest_version rt rs =
     and_then (js_sort (by_latest rt) rs) (\<lambda>sortedRecords. Inr (index0 sortedRecords))"

subsection \<open>isFollowing\<close>

definition isFollowing ::
  "runtime \<Rightarrow> (query_spec \<Rightarrow> error + response) \<Rightarrow> string \<Rightarrow> string \<Rightarrow> bool" where
  "isFollowing rt ex followerAddress followingAddress =
     catch False
       (and_then (ex (follows_query followerAddress followingAddress))
          (\<lambda>result.
            case records result of
              Rows (r # rs) \<Rightarrow>
                and_then (latest_version rt (r # rs))
                  (\<lambda>latest. and_then (js_get latest ''status'')
                    (\<lambda>status. Inr (status = JStr ''active'')))
            | _ \<Rightarrow> Inr False))"

subsection \<open>followUser and unfollowUser\<close>

definition follow_version ::
  "jsval \<Rightarrow> string \<Rightarrow> string \<Rightarrow> string \<Rightarrow> jsval \<Rightarrow> string \<Rightarrow> jsval" where
  "follow_version followId followerAddress followingAddress status created updated =
     JObj
       [(''id'', followId),
        (''follower'', JStr followerAddress),
        (''following'', JStr followingAddress),
        (''status'', JStr status),
        (''created_at'', created),
        (''updated_at'', JStr updated)]"

text \<open>
  The end of a write operation: nothing to store (\<^verbatim>\<open>return false\<close>), an exception on the
  way (caught, \<^verbatim>\<open>return false\<close>), or one \<^verbatim>\<open>store\<close> call with one record, \<^verbatim>\<open>true\<close> when it
  returns.
\<close>

definition store_one :: "'st client \<Rightarrow> 'st \<Rightarrow> string \<Rightarrow> error + jsval option \<Rightarrow> bool \<times> 'st" where
  "store_one cl st coll decided =
     (case decided of
        Inl e \<Rightarrow> (False, st)
      | Inr None \<Rightarrow> (False, st)
      | Inr (Some v) \<Rightarrow>
          (case store cl st coll [v] of
             Inl e \<Rightarrow> (False, st)
           | Inr st' \<Rightarrow> (True, st')))"

text \<open>
  \<^verbatim>\<open>followUser\<close> between its query and its \<^verbatim>\<open>store\<close>: the new version to store, if any.
  The sort is in place, so \<^verbatim>\<open>existingFollow.records[0]\<close> is the latest version too.
\<close>

definition follow_decision ::
  "runtime \<Rightarrow> response \<Rightarrow> string \<Rightarrow> string \<Rightarrow> error + jsval option" where
  "follow_decision rt existingFollow followerAddress followingAddress =
     (case records existingFollow of
        Rows (r # rs) \<Rightarrow>
          and_then (latest_version rt (r # rs))
            (\<lambda>latestFollow. and_then (js_get latestFollow ''status'')
              (\<lambda>status.
                if status = JStr ''active'' then Inr None
                else Inr (Some (follow_version (fld latestFollow ''id'') followerAddress
                       followingAddress ''active'' (fld latestFollow ''created_at'')
                       (toISOString rt)))))
      | _ \<Rightarrow>
          Inr (Some (follow_version
            (JStr (''follow_'' @ last8 followerAddress @ ''_'' @ last8 followingAddress @ ''_''
                   @ decimal (date_now rt)))
            followerAddress followingAddress ''active'' (JStr (toISOString rt))
            (toISOString rt))))"

definition followUser ::
  "runtime \<Rightarrow> 'st client \<Rightarrow> 'st \<Rightarrow> string \<Rightarrow> string \<Rightarrow> bool \<times> 'st" where
  "followUser rt cl st followerAddress followingAddress =
     (if followerAddress = followingAddress then (False, st)
      else store_one cl st ''follows''
        (and_then (execute cl st (follows_query followerAddress followingAddress))
           (\<lambda>existingFollow.
             follow_decision rt existingFollow followerAddress followingAddress)))"

definition unfollow_decision ::
  "runtime \<Rightarrow> response \<Rightarrow> string \<Rightarrow> string \<Rightarrow> error + jsval option" where
  "unfollow_decision rt existingFollow followerAddress followingAddress =
     (case records existingFollow of
        Rows (r # rs) \<Rightarrow>
          and_then (latest_version rt (r # rs))
            (\<lambda>latestFollow. and_then (js_get latestFollow ''status'')
              (\<lambda>status.
                if status \<noteq> JStr ''active'' then Inr None
                else Inr (Some (follow_version (fld latestFollow ''id'') followerAddress
                       followingAddress ''inactive'' (fld latestFollow ''created_at'')
                       (toISOString rt)))))
      | _ \<Rightarrow> Inr None)"

definition unfollowUser ::
  "runtime \<Rightarrow> 'st client \<Rightarrow> 'st \<Rightarrow> string \<Rightarrow> string \<Rightarrow> bool \<times> 'st" where
  "unfollowUser rt cl st followerAddress followingAddress =
     store_one cl st ''follows''
       (and_then (execute cl st (follows_query followerAddress followingAddress))
          (\<lambda>existingFollow.
            unfollow_decision rt existingFollow followerAddress followingAddress))"

subsection \<open>likeTweet\<close>



section \<open>The backing store\<close>

text \<open>
  Modelled from the spec: the Query Executor and the \<^verbatim>\<open>store\<close> call of \<^verbatim>\<open>@onchaindb/sdk\<close>,
  which the repository calls and does not contain.  A collection is the sequence of its
  records in storage order.  \<^verbatim>\<open>execute\<close> selects the records of the collection that satisfy
  all predicates, in storage order, applies the offset and then the limit, resolves each
  join against every surviving record (substituting \<^verbatim>\<open>$data.<field>\<close> by the record's field,
  projecting the matches, resolving the nested joins against each match), attaches the
  result under the join's alias (the first match or \<^verbatim>\<open>null\<close> for a one-to-one join, the
  sequence of all matches for a one-to-many join) and projects the outer record, keeping
  the aliases.  An unknown collection is a \<^verbatim>\<open>QueryError\<close>, and so is a limit that is not
  positive; a join on an outer field that does not exist resolves to nothing.  \<^verbatim>\<open>store\<close>
  appends: a record is never updated or removed.
\<close>

type_synonym db = "string \<rightharpoonup> jsval list"

fun matches :: "jsval \<Rightarrow> field_predicate \<Rightarrow> bool" where
  "matches r (FieldEquals f v) = (fld r f = v)"
| "matches r (FieldIsNull f) = (fld r f = JUndefined \<or> fld r f = JNull)"

fun project :: "selection \<Rightarrow> jsval \<Rightarrow> jsval" where
  "project SelectAll r = r"
| "project (SelectFields fs) (JObj kvs) = JObj (filter (\<lambda>kv. fst kv \<in> set fs) kvs)"
| "project (SelectFields fs) v = v"

definition outer_value :: "string \<Rightarrow> jsval \<Rightarrow> jsval" where
  "outer_value expr outer =
     (if take 6 expr = ''$data.'' then fld outer (drop 6 expr) else JStr expr)"

definition attach :: "(string \<times> jsval) list \<Rightarrow> jsval \<Rightarrow> jsval" where
  "attach kvs r = fold (\<lambda>kv. set_fld (fst kv) (snd kv)) kvs r"

fun first_or_null :: "jsval list \<Rightarrow> jsval" where
  "first_or_null [] = JNull"
| "first_or_null (r # rs) = r"

fun resolve_join :: "db \<Rightarrow> jsval \<Rightarrow> join_spec \<Rightarrow> error + (string \<times> jsval)" where
  "resolve_join db outer (Join alias target onField expr kind sel nested) =
     (case db target of
        None \<Rightarrow> Inl QueryError
      | Some rows \<Rightarrow>
          and_then
            (map_err (\<lambda>x. x)
               (map (\<lambda>t.
                       and_then (map_err (\<lambda>x. x) (map (resolve_join db (project sel t)) nested))
                         (\<lambda>kvs. Inr (attach kvs (project sel t))))
                  (if outer_value expr outer = JUndefined then []
                   else filter (\<lambda>t. fld t onField = outer_value expr outer) rows)))
            (\<lambda>rs. Inr (alias,
               case kind of OneToOne \<Rightarrow> first_or_null rs | OneToMany \<Rightarrow> JArr rs)))"

definition page :: "int option \<Rightarrow> int \<Rightarrow> 'a list \<Rightarrow> 'a list" where
  "page lim off xs =
     (case lim of
        None \<Rightarrow> drop (nat off) xs
      | Some n \<Rightarrow> take (nat n) (drop (nat off) xs))"

definition ondb_execute :: "db \<Rightarrow> query_spec \<Rightarrow> error + response" where
  "ondb_execute db q =
     (case db (collection q) of
        None \<Rightarrow> Inl QueryError
      | Some rows \<Rightarrow>
          if (case limit q of None \<Rightarrow> False | Some n \<Rightarrow> n \<le> 0) then Inl QueryError
          else
            and_then
              (map_err
                 (\<lambda>r. and_then (map_err (resolve_join db r) (joins q))
                        (\<lambda>kvs. Inr (attach kvs (project (projection q) r))))
                 (page (limit q) (offset q)
                    (filter (\<lambda>r. list_all (matches r) (predicates q)) rows)))
              (\<lambda>rs. Inr \<lparr>records = Rows rs\<rparr>))"

definition ondb_store :: "db \<Rightarrow> string \<Rightarrow> jsval list \<Rightarrow> error + db" where
  "ondb_store db coll recs =
     (case db coll of
        None \<Rightarrow> Inl QueryError
      | Some rows \<Rightarrow> Inr (db(coll \<mapsto> rows @ recs)))"

definition ondb :: "db client" where
  "ondb = \<lparr>execute = ondb_execute, store = ondb_store\<rparr>"

section \<open>Latest-version resolution, as the specification words it\<close>

text \<open>
  The stored follow records of a pair, and among a sequence of versions the one with the
  most recent time, the time of a version (\<open>version_time\<close>) being that of \<^verbatim>\<open>updated_at\<close>,
  or of \<^verbatim>\<open>created_at\<close> when \<^verbatim>\<open>updated_at\<close> is absent.  Of two versions with the same time the one
  stored first is kept; a version whose time is not a date is never the more recent one.
\<close>

definition stored_versions :: "db \<Rightarrow> string \<Rightarrow> string \<Rightarrow> jsval list" where
  "stored_versions db followerAddress followingAddress =
     filter
       (\<lambda>r. fld r ''follower'' = JStr followerAddress \<and> fld r ''following'' = JStr followingAddress)
       (case db ''follows'' of None \<Rightarrow> [] | Some rows \<Rightarrow> rows)"

definition more_recent :: "runtime \<Rightarrow> jsval \<Rightarrow> jsval \<Rightarrow> bool" where
  "more_recent rt r m =
     (case version_time rt r of
        None \<Rightarrow> False
      | Some x \<Rightarrow> (case version_time rt m of None \<Rightarrow> False | Some y \<Rightarrow> y < x))"

fun most_recent_from :: "runtime \<Rightarrow> jsval \<Rightarrow> jsval list \<Rightarrow> jsval" where
  "most_recent_from rt m [] = m"
| "most_recent_from rt m (r # rs) = most_recent_from rt (if more_recent rt r m then r else m) rs"

fun most_recent :: "runtime \<Rightarrow> jsval list \<Rightarrow> jsval option" where
  "most_recent rt [] = None"
| "most_recent rt (r # rs) = Some (most_recent_from rt r rs)"

definition spec_isFollowing :: "runtime \<Rightarrow> db \<Rightarrow> string \<Rightarrow> string \<Rightarrow> bool" where
  "spec_isFollowing rt db followerAddress followingAddress =
     (case most_recent rt (stored_versions db followerAddress followingAddress) of
        None \<Rightarrow> False
      | Some r \<Rightarrow> fld r ''status'' = JStr ''active'')"

section \<open>Example data\<close>

text \<open>
  Twelve days of January 2025 as ISO strings, with their epoch milliseconds: the part of
  \<^verbatim>\<open>Date\<close> parsing the examples need.
\<close>

definition day :: "nat \<Rightarrow> string" where
  "day d = ''2025-01-'' @ (if d < 10 then ''0'' else []) @ decimal d @ ''T00:00:00.000Z''"

definition example_getTime :: "jsval \<Rightarrow> int option" where
  "example_getTime =
     map_of
       [(JStr ''2025-01-01T00:00:00.000Z'', 1735689600000),
        (JStr ''2025-01-02T00:00:00.000Z'', 1735776000000),
        (JStr ''2025-01-03T00:00:00.000Z'', 1735862400000),
        (JStr ''2025-01-04T00:00:00.000Z'', 1735948800000),
        (JStr ''2025-01-05T00:00:00.000Z'', 1736035200000),
        (JStr ''2025-01-06T00:00:00.000Z'', 1736121600000),
        (JStr ''2025-01-07T00:00:00.000Z'', 1736208000000),
        (JStr ''2025-01-08T00:00:00.000Z'', 1736294400000),
        (JStr ''2025-01-09T00:00:00.000Z'', 1736380800000),
        (JStr ''2025-01-10T00:00:00.000Z'', 1736467200000),
        (JStr ''2025-01-11T00:00:00.000Z'', 1736553600000),
        (JStr ''2025-01-12T00:00:00.000Z'', 1736640000000)]"

definition example_runtime :: runtime where
  "example_runtime =
     \<lparr>getTime = example_getTime, date_now = 1736640000000,
      toISOString = day 12, random36 = ''0.4fzyo82mvyr''\<rparr>"

text \<open>
  A follow relation of \<open>u1\<close> to \<open>u2\<close> that was toggled once a day: version \<open>d\<close> was stored on
  day \<open>d\<close>, all versions carry the id \<open>f1\<close> and the creation time of the first.
\<close>

definition version :: "nat \<Rightarrow> string \<Rightarrow> jsval" where
  "version d status = follow_version (JStr ''f1'') ''u1'' ''u2'' status (JStr (day 1)) (day d)"

definition eleven_versions :: "jsval list" where
  "eleven_versions =
     [version 1 ''active'', version 2 ''inactive'', version 3 ''active'', version 4 ''inactive'',
      version 5 ''active'', version 6 ''inactive'', version 7 ''active'', version 8 ''inactive'',
      version 9 ''active'', version 10 ''inactive'', version 11 ''active'']"

definition db11 :: db where
  "db11 = [''follows'' \<mapsto> eleven_versions]"

text \<open>
  Scenario B: the tweet \<open>t1\<close> as the timeline query returns it, with the likes of \<open>u1\<close> and
  \<open>u2\<close> joined in (and a stored counter that has drifted), one reply and no quotes alias.
\<close>

definition example_config :: "string option \<Rightarrow> SocialServiceConfig" where
  "example_config addr =
     \<lparr>endpoint = ''https://db.example'', appId = ''app'', apiKey = None,
      currentUserAddress = addr\<rparr>"

definition like_of :: "string \<Rightarrow> jsval" where
  "like_of u = JObj [(''user'', JStr u), (''created_at'', JStr (day 2))]"

definition tweet_t1 :: jsval where
  "tweet_t1 =
     JObj
       [(''id'', JStr ''t1''),
        (''author'', JStr ''a1''),
        (''content'', JStr ''hello''),
        (''like_count'', JNum 99),
        (''created_at'', JStr (day 1)),
        (''likes'', JArr [like_of ''u1'', like_of ''u2'']),
        (''retweets'', JArr []),
        (''replies'',
           JArr [JObj [(''id'', JStr ''t2''), (''author'', JStr ''a2''),
                       (''created_at'', JStr (day 2))]])]"

definition timeline_of :: "jsval list \<Rightarrow> query_spec \<Rightarrow> error + response" where
  "timeline_of rs q = Inr \<lparr>records = Rows rs\<rparr>"




text \<open>
  A store with the user \<open>a2\<close>, three tweets of hers (and a record of hers without content),
  two followers and one followed user.
\<close>

definition tweet_of :: "string \<Rightarrow> string \<Rightarrow> string \<Rightarrow> jsval" where
  "tweet_of tid addr text =
     JObj [(''id'', JStr tid), (''author'', JStr addr), (''content'', JStr text)]"



text \<open>
  Eleven versions again, for a relation that was followed twice at the start (two calls at
  once): from the third on the statuses alternate, the tenth is active and the eleventh,
  the most recent, is inactive.
\<close>

definition eleven_versions' :: "jsval list" where
  "eleven_versions' =
     [version 1 ''active'', version 2 ''active'', version 3 ''inactive'', version 4 ''active'',
      version 5 ''inactive'', version 6 ''active'', version 7 ''inactive'', version 8 ''active'',
      version 9 ''inactive'', version 10 ''active'', version 11 ''inactive'']"

definition db11' :: db where
  "db11' = [''follows'' \<mapsto> eleven_versions']"





section \<open>Properties of the helpers\<close>

lemma js_or_simps:
  "js_or JUndefined b = b"
  "js_or JNull b = b"
  "js_or (JArr xs) b = JArr xs"
  "js_or (JObj kvs) b = JObj kvs"
  by (simp_all add: js_or_def)

lemma map_err_Inr: "map_err (\<lambda>r. Inr (f r)) xs = Inr (map f xs)"
  by (induction xs) auto

lemma by_latest_defined:
  "\<not> nullish x \<Longrightarrow> \<not> nullish y \<Longrightarrow>
   by_latest rt x y =
     Inr (case version_time rt y of None \<Rightarrow> None
          | Some a \<Rightarrow> (case version_time rt x of None \<Rightarrow> None | Some b \<Rightarrow> Some (a - b)))"
  by (simp add: by_latest_def follow_time_def)

lemma sorts_before_iff:
  "(case (case version_time rt y of None \<Rightarrow> None
          | Some a \<Rightarrow> (case version_time rt x of None \<Rightarrow> None | Some b \<Rightarrow> Some (a - b)))
    of None \<Rightarrow> False | Some d \<Rightarrow> d < 0) = more_recent rt x y"
  by (simp add: more_recent_def split: option.splits)

text \<open>
  Inserting a record into a sequence of records: the comparator is defined on all of them,
  and the new first element is the new record exactly when it is more recent than the old
  first element.
\<close>

lemma insert_by_latest:
  "\<not> nullish x \<Longrightarrow> list_all (\<lambda>y. \<not> nullish y) acc \<Longrightarrow>
   \<exists>zs. insert_by (by_latest rt) x acc = Inr zs \<and> set zs = insert x (set acc) \<and>
        index0 zs = (case acc of [] \<Rightarrow> x | y # ys \<Rightarrow> if more_recent rt x y then x else y)"
proof (induction acc)
  case Nil
  then show ?case by simp
next
  case (Cons y ys)
  then obtain zs where zs: "insert_by (by_latest rt) x ys = Inr zs" "set zs = insert x (set ys)"
    by auto
  from Cons.prems show ?case
    by (auto simp: by_latest_defined sorts_before_iff zs)
qed

lemma sort_into_latest:
  "acc \<noteq> [] \<Longrightarrow> list_all (\<lambda>y. \<not> nullish y) acc \<Longrightarrow> list_all (\<lambda>y. \<not> nullish y) xs \<Longrightarrow>
   \<exists>zs. sort_into (by_latest rt) acc xs = Inr zs \<and> set zs = set acc \<union> set xs \<and>
        index0 zs = most_recent_from rt (index0 acc) xs"
proof (induction xs arbitrary: acc)
  case Nil
  then show ?case by simp
next
  case (Cons x xs)
  from Cons.prems obtain a as where acc: "acc = a # as" by (cases acc) auto
  from Cons.prems obtain zs where zs: "insert_by (by_latest rt) x acc = Inr zs"
      "set zs = insert x (set acc)"
      "index0 zs = (if more_recent rt x a then x else a)"
    using insert_by_latest [of x acc rt] by (auto simp: acc)
  have "zs \<noteq> []" using zs(2) by auto
  moreover have "list_all (\<lambda>y. \<not> nullish y) zs"
    using Cons.prems zs(2) by (auto simp: list_all_iff)
  moreover have "list_all (\<lambda>y. \<not> nullish y) xs" using Cons.prems by simp
  ultimately obtain ws where ws: "sort_into (by_latest rt) zs xs = Inr ws"
      "set ws = set zs \<union> set xs" "index0 ws = most_recent_from rt (index0 zs) xs"
    using Cons.IH [of zs] by blast
  show ?case
    using zs ws by (auto simp: acc)
qed

lemma filter_not_undefined:
  "list_all (\<lambda>y. \<not> nullish y) xs \<Longrightarrow>
   filter (\<lambda>x. x \<noteq> JUndefined) xs = xs \<and> filter (\<lambda>x. x = JUndefined) xs = []"
  by (induction xs) auto

text \<open>
  Sorting records by the comparator of the follow operations and taking the first one
  selects the most recent version, the earliest of them in the input if several have the
  greatest time.
\<close>

lemma latest_version_most_recent:
  assumes "list_all (\<lambda>y. \<not> nullish y) (r # rs)"
  shows "latest_version rt (r # rs) = Inr (most_recent_from rt r rs)"
proof -
  have r: "\<not> nullish r" and rs: "list_all (\<lambda>y. \<not> nullish y) rs" using assms by simp_all
  obtain zs where zs: "sort_into (by_latest rt) [r] rs = Inr zs"
      "index0 zs = most_recent_from rt r rs"
    using sort_into_latest [of "[r]" rs rt] r rs by auto
  have f: "filter (\<lambda>x. x \<noteq> JUndefined) (r # rs) = r # rs"
      "filter (\<lambda>x. x = JUndefined) (r # rs) = []"
    using filter_not_undefined [OF assms] by simp_all
  show ?thesis
    unfolding latest_version_def js_sort_def f
    using zs by simp
qed

text \<open>A query without joins on the backing store: filter, then offset and limit.\<close>

lemma execute_no_joins:
  "db (collection q) = Some rows \<Longrightarrow> joins q = [] \<Longrightarrow> projection q = SelectAll \<Longrightarrow>
   limit q = Some n \<Longrightarrow> 0 < n \<Longrightarrow>
   ondb_execute db q =
     Inr \<lparr>records = Rows (take (nat n) (drop (nat (offset q))
            (filter (\<lambda>r. list_all (matches r) (predicates q)) rows)))\<rparr>"
  by (simp add: ondb_execute_def page_def attach_def map_err_Inr)

lemma follows_query_result:
  "db ''follows'' = Some rows \<Longrightarrow>
   ondb_execute db (follows_query a b) = Inr \<lparr>records = Rows (take 10 (stored_versions db a b))\<rparr>"
  by (simp add: execute_no_joins [where rows = rows and n = 10] follows_query_def
      stored_versions_def)

subsection \<open>The example data\<close>

lemma version_fields:
  "fld (version d s) ''follower'' = JStr ''u1''"
  "fld (version d s) ''following'' = JStr ''u2''"
  "fld (version d s) ''status'' = JStr s"
  "fld (version d s) ''id'' = JStr ''f1''"
  "fld (version d s) ''created_at'' = JStr (day 1)"
  "fld (version d s) ''updated_at'' = JStr (day d)"
  "nullish (version d s) = False"
  by (simp_all add: version_def follow_version_def)

lemma version_times:
  "version_time example_runtime (version (Suc 0) s) = Some 1735689600000"
  "version_time example_runtime (version 1 s) = Some 1735689600000"
  "version_time example_runtime (version 2 s) = Some 1735776000000"
  "version_time example_runtime (version 3 s) = Some 1735862400000"
  "version_time example_runtime (version 4 s) = Some 1735948800000"
  "version_time example_runtime (version 5 s) = Some 1736035200000"
  "version_time example_runtime (version 6 s) = Some 1736121600000"
  "version_time example_runtime (version 7 s) = Some 1736208000000"
  "version_time example_runtime (version 8 s) = Some 1736294400000"
  "version_time example_runtime (version 9 s) = Some 1736380800000"
  "version_time example_runtime (version 10 s) = Some 1736467200000"
  "version_time example_runtime (version 11 s) = Some 1736553600000"
  by (simp_all add: version_time_def version_fields js_or_def example_runtime_def
      example_getTime_def day_def)

lemma db11_stored: "stored_versions db11 ''u1'' ''u2'' = eleven_versions"
  by (simp add: stored_versions_def db11_def eleven_versions_def version_fields)

lemma db11_query:
  "ondb_execute db11 (follows_query ''u1'' ''u2'') =
     Inr \<lparr>records = Rows (take 10 eleven_versions)\<rparr>"
proof -
  have "db11 ''follows'' = Some eleven_versions" by (simp add: db11_def)
  then have "ondb_execute db11 (follows_query ''u1'' ''u2'') =
      Inr \<lparr>records = Rows (take 10 (stored_versions db11 ''u1'' ''u2''))\<rparr>"
    by (rule follows_query_result)
  then show ?thesis
    by (simp only: db11_stored)
qed

lemma db11_latest_of_ten:
  "latest_version example_runtime (take 10 eleven_versions) = Inr (version 10 ''inactive'')"
  by (simp add: eleven_versions_def latest_version_most_recent version_fields more_recent_def
      version_times)

lemma db11_most_recent:
  "most_recent example_runtime eleven_versions = Some (version 11 ''active'')"
  by (simp add: eleven_versions_def version_fields more_recent_def version_times)

section \<open>The claims\<close>

text \<open>
  C1.  \<^verbatim>\<open>isFollowing\<close> is meant to return whether the most recent of the stored follow
  records of the pair is active.  Its query is limited to ten records, and the store
  returns the oldest first: on the eleven versions of the example, of which the most
  recent (day 11) is active, \<^verbatim>\<open>isFollowing\<close> sees the first ten only and answers with the
  status of the tenth, which is inactive.
\<close>

theorem isFollowing_eleven_versions:
  "isFollowing example_runtime (execute ondb db11) ''u1'' ''u2'' = False \<and>
   spec_isFollowing example_runtime db11 ''u1'' ''u2'' = True"
proof -
  have "latest_version example_runtime
          (version (Suc 0) ''active'' # tl (take 10 eleven_versions)) =
        Inr (version 10 ''inactive'')"
    using db11_latest_of_ten by (simp add: eleven_versions_def)
  then have "isFollowing example_runtime (ondb_execute db11) ''u1'' ''u2'' = False"
    by (simp add: isFollowing_def db11_query eleven_versions_def js_get_def version_fields)
  moreover have "spec_isFollowing example_runtime db11 ''u1'' ''u2'' = True"
    by (simp add: spec_isFollowing_def db11_stored db11_most_recent version_fields)
  ultimately show ?thesis by (simp add: ondb_def)
qed

lemma most_recent_from_mem: "most_recent_from rt m xs \<in> set (m # xs)"
  by (induction xs arbitrary: m) auto

lemma most_recent_from_greatest:
  "list_all (\<lambda>r. version_time rt r \<noteq> None) (m # xs) \<Longrightarrow> y \<in> set (m # xs) \<Longrightarrow>
   the (version_time rt y) \<le> the (version_time rt (most_recent_from rt m xs))"
proof (induction xs arbitrary: m y)
  case Nil
  then show ?case by simp
next
  case (Cons x xs)
  let ?m' = "if more_recent rt x m then x else m"
  from Cons.prems(1) have valid: "list_all (\<lambda>r. version_time rt r \<noteq> None) (?m' # xs)"
    by simp
  have step: "the (version_time rt m) \<le> the (version_time rt ?m')"
       "the (version_time rt x) \<le> the (version_time rt ?m')"
    using Cons.prems(1) by (auto simp: more_recent_def)
  have top: "the (version_time rt ?m') \<le> the (version_time rt (most_recent_from rt ?m' xs))"
    using Cons.IH [of ?m' ?m'] valid by simp
  from Cons.prems(2) consider "y = m" | "y = x" | "y \<in> set xs" by auto
  then show ?case
  proof cases
    case 1
    with step(1) top show ?thesis by simp
  next
    case 2
    with step(2) top show ?thesis by simp
  next
    case 3
    with Cons.IH [of ?m' y] valid show ?thesis by simp
  qed
qed

lemma latest_version_unique:
  assumes xs: "xs \<noteq> []" "list_all (\<lambda>r. \<not> nullish r) xs"
      "list_all (\<lambda>r. version_time rt r \<noteq> None) xs"
  shows "\<exists>r \<in> set xs. latest_version rt xs = Inr r \<and>
           (\<forall>y \<in> set xs. the (version_time rt y) \<le> the (version_time rt r))"
proof -
  from xs(1) obtain m ms where eq: "xs = m # ms" by (cases xs) auto
  have "latest_version rt (m # ms) = Inr (most_recent_from rt m ms)"
    using latest_version_most_recent xs(2) unfolding eq by blast
  moreover have "most_recent_from rt m ms \<in> set (m # ms)" by (rule most_recent_from_mem)
  moreover have "\<forall>y \<in> set (m # ms).
      the (version_time rt y) \<le> the (version_time rt (most_recent_from rt m ms))"
    using most_recent_from_greatest xs(3) unfolding eq by blast
  ultimately show ?thesis unfolding eq by blast
qed

text \<open>
  C5.  Latest-version selection does not depend on the order of the candidates: for every
  non-empty list of follow records (values that are not \<^verbatim>\<open>null\<close> or \<^verbatim>\<open>undefined\<close>) whose
  times are dates and pairwise distinct, sorting any permutation of the list with the
  comparator of the service and taking the first element selects the same record, and
  \<^verbatim>\<open>isFollowing\<close> returns the same boolean whichever of the two orders the store returns.
\<close>

theorem latest_version_permutation:
  assumes perm: "mset ys = mset xs"
    and ne: "xs \<noteq> []"
    and objs: "list_all (\<lambda>r. \<not> nullish r) xs"
    and valid: "list_all (\<lambda>r. version_time rt r \<noteq> None) xs"
    and dist: "distinct (map (version_time rt) xs)"
    and ex: "ex (follows_query a b) = Inr \<lparr>records = Rows xs\<rparr>"
    and ex': "ex' (follows_query a b) = Inr \<lparr>records = Rows ys\<rparr>"
  shows "(\<exists>r \<in> set xs. latest_version rt xs = Inr r \<and> latest_version rt ys = Inr r) \<and>
         isFollowing rt ex' a b = isFollowing rt ex a b"
proof -
  have set_eq: "set ys = set xs" using perm by (metis set_mset_mset)
  have ne': "ys \<noteq> []" using perm ne by auto
  have objs': "list_all (\<lambda>r. \<not> nullish r) ys" using objs set_eq by (simp add: list_all_iff)
  have valid': "list_all (\<lambda>r. version_time rt r \<noteq> None) ys"
    using valid set_eq by (simp add: list_all_iff)
  obtain r where r: "r \<in> set xs" "latest_version rt xs = Inr r"
      "\<forall>y \<in> set xs. the (version_time rt y) \<le> the (version_time rt r)"
    using latest_version_unique [OF ne objs valid] by blast
  obtain r' where r': "r' \<in> set ys" "latest_version rt ys = Inr r'"
      "\<forall>y \<in> set ys. the (version_time rt y) \<le> the (version_time rt r')"
    using latest_version_unique [OF ne' objs' valid'] by blast
  have "the (version_time rt r) = the (version_time rt r')"
    using r r' set_eq by (simp add: order_antisym)
  moreover have "version_time rt r \<noteq> None" "version_time rt r' \<noteq> None"
    using valid r(1) r'(1) set_eq by (auto simp: list_all_iff)
  ultimately have "version_time rt r = version_time rt r'" by auto
  moreover have "inj_on (version_time rt) (set xs)" using dist by (simp add: distinct_map)
  ultimately have same: "r' = r" using r(1) r'(1) set_eq by (auto dest: inj_onD)
  obtain x xs' where xs: "xs = x # xs'" using ne by (cases xs) auto
  obtain y ys' where ys: "ys = y # ys'" using ne' by (cases ys) auto
  have "isFollowing rt ex' a b = isFollowing rt ex a b"
    using r(2) r'(2) same unfolding isFollowing_def ex ex' xs ys by simp
  then show ?thesis using r r' same by blast
qed

theorem latest_version_permutation_witness:
  "mset [version 2 ''inactive'', version 1 ''active''] = mset [version 1 ''active'', version 2 ''inactive''] \<and>
   distinct (map (version_time example_runtime) [version 1 ''active'', version 2 ''inactive'']) \<and>
   latest_version example_runtime [version 1 ''active'', version 2 ''inactive''] = Inr (version 2 ''inactive'') \<and>
   latest_version example_runtime [version 2 ''inactive'', version 1 ''active''] = Inr (version 2 ''inactive'') \<and>
   isFollowing example_runtime (\<lambda>q. Inr \<lparr>records = Rows [version 2 ''inactive'', version 1 ''active'']\<rparr>) ''u1'' ''u2'' =
   isFollowing example_runtime (\<lambda>q. Inr \<lparr>records = Rows [version 1 ''active'', version 2 ''inactive'']\<rparr>) ''u1'' ''u2''"
  using latest_version_permutation [of "[version 2 ''inactive'', version 1 ''active'']"
      "[version 1 ''active'', version 2 ''inactive'']" example_runtime
      "\<lambda>q. Inr \<lparr>records = Rows [version 1 ''active'', version 2 ''inactive'']\<rparr>" "''u1''" "''u2''"
      "\<lambda>q. Inr \<lparr>records = Rows [version 2 ''inactive'', version 1 ''active'']\<rparr>"]
  by (simp add: version_fields version_times latest_version_most_recent more_recent_def)

subsection \<open>The timeline\<close>

lemma map_err_nth:
  "map_err f xs = Inr ys \<Longrightarrow> length ys = length xs \<and> (\<forall>i < length xs. f (xs ! i) = Inr (ys ! i))"
proof (induction xs arbitrary: ys)
  case Nil
  then show ?case by simp
next
  case (Cons x xs)
  from Cons.prems obtain y where y: "f x = Inr y" by (cases "f x") auto
  with Cons.prems obtain zs where zs: "map_err f xs = Inr zs" by (cases "map_err f xs") auto
  with y Cons.prems have ys: "ys = y # zs" by simp
  from Cons.IH [OF zs] y show ?case
    by (auto simp: ys nth_Cons split: nat.splits)
qed

text \<open>What a successful shaping of one timeline record has computed.\<close>

lemma timeline_record_Inr:
  assumes "timeline_record cfg r = Inr v"
  shows "like_count v = fld (js_or (fld r ''likes'') (JArr [])) ''length''"
    and "retweet_count v = fld (js_or (fld r ''retweets'') (JArr [])) ''length''"
    and "reply_count v = fld (js_or (fld r ''replies'') (JArr [])) ''length''"
    and "quote_count v = fld (js_or (fld r ''quotes'') (JArr [])) ''length''"
    and "author_info v = joined_or_null r ''author_info''"
    and "quote_tweet v = joined_or_null r ''quote_tweet''"
    and "\<exists>b. user_liked v = JBool b \<and>
           (case caller cfg of
              Some a \<Rightarrow> js_some (js_or (fld r ''likes'') (JArr []))
                          (\<lambda>like. and_then (js_get like ''user'') (\<lambda>u. Inr (u = JStr a)))
            | None \<Rightarrow> Inr False) = Inr b"
proof -
  let ?scan = "case caller cfg of
              Some a \<Rightarrow> js_some (js_or (fld r ''likes'') (JArr []))
                          (\<lambda>like. and_then (js_get like ''user'') (\<lambda>u. Inr (u = JStr a)))
            | None \<Rightarrow> Inr False"
  from assms have nn: "\<not> nullish r"
    by (auto simp: timeline_record_def split: if_splits)
  from assms nn obtain b where b: "?scan = Inr b"
    by (cases ?scan) (auto simp: timeline_record_def Let_def)
  from assms nn b have v: "v = with_joined r
      (\<lparr>id' = fld r ''id'',
         author = fld r ''author'',
         content = fld r ''content'',
         content_type = js_or (fld r ''content_type'') (JStr ''text''),
         hashtags = js_or (fld r ''hashtags'') (JArr []),
         mentions = js_or (fld r ''mentions'') (JArr []),
         media_urls = fld r ''media_urls'',
         reply_to_id = fld r ''reply_to_id'',
         retweet_of_id = fld r ''retweet_of_id'',
         quote_tweet_id = fld r ''quote_tweet_id'',
         like_count = js_or (fld r ''like_count'') (JNum 0),
         retweet_count = js_or (fld r ''retweet_count'') (JNum 0),
         reply_count = js_or (fld r ''reply_count'') (JNum 0),
         quote_count = js_or (fld r ''quote_count'') (JNum 0),
         created_at = js_or (fld r ''timestamp'') (fld r ''created_at''),
         updated_at = js_or (fld r ''timestamp'') (fld r ''updated_at''),
         is_deleted = js_or (fld r ''is_deleted'') (JBool False),
         visibility = js_or (fld r ''visibility'') (JStr ''public''),
         language = fld r ''language'',
         location = fld r ''location'',
         engagement_score = js_or (fld r ''engagement_score'') (JNum 0),
         user_liked = JBool b,
         user_retweeted = JBool False,
         author_info = None,
         quote_tweet = None\<rparr>
        \<lparr>like_count := fld (js_or (fld r ''likes'') (JArr [])) ''length'',
         retweet_count := fld (js_or (fld r ''retweets'') (JArr [])) ''length'',
         reply_count := fld (js_or (fld r ''replies'') (JArr [])) ''length'',
         quote_count := fld (js_or (fld r ''quotes'') (JArr [])) ''length''\<rparr>)"
    by (simp add: timeline_record_def Let_def mapTweetData_def)
  show "like_count v = fld (js_or (fld r ''likes'') (JArr [])) ''length''"
    and "retweet_count v = fld (js_or (fld r ''retweets'') (JArr [])) ''length''"
    and "reply_count v = fld (js_or (fld r ''replies'') (JArr [])) ''length''"
    and "quote_count v = fld (js_or (fld r ''quotes'') (JArr [])) ''length''"
    and "author_info v = joined_or_null r ''author_info''"
    and "quote_tweet v = joined_or_null r ''quote_tweet''"
    by (simp_all add: v with_joined_def)
  show "\<exists>b. user_liked v = JBool b \<and> ?scan = Inr b"
    using b by (simp add: v with_joined_def)
qed

text \<open>
  The timeline is the list of the views of the records, in order, unless shaping one of
  them throws, in which case it is empty.
\<close>

lemma getPublicTimeline_views:
  assumes "ex (timeline_query (default_arg 20 lim) (default_arg 0 off)) = Inr result"
    and "records result = Rows rs"
    and "i < length (getPublicTimeline ex cfg lim off)"
  shows "length (getPublicTimeline ex cfg lim off) = length rs"
    and "timeline_record cfg (rs ! i) = Inr (getPublicTimeline ex cfg lim off ! i)"
proof -
  have eq: "getPublicTimeline ex cfg lim off = catch [] (map_err (timeline_record cfg) rs)"
    using assms(1,2) by (simp add: getPublicTimeline_def)
  with assms(3) obtain vs where vs: "map_err (timeline_record cfg) rs = Inr vs"
    by (cases "map_err (timeline_record cfg) rs") auto
  with eq have out: "getPublicTimeline ex cfg lim off = vs" by simp
  from map_err_nth [OF vs] assms(3)
  show "length (getPublicTimeline ex cfg lim off) = length rs"
    and "timeline_record cfg (rs ! i) = Inr (getPublicTimeline ex cfg lim off ! i)"
    by (simp_all add: out)
qed

text \<open>
  C3.  For every tweet record that \<^verbatim>\<open>getPublicTimeline\<close> returns, each of the four counters
  of the view is the length of the joined sequence of the record (likes, retweets, replies,
  quotes), and \<open>0\<close> when the alias is absent, whatever counter the record itself stores.
\<close>

theorem getPublicTimeline_counts:
  assumes "ex (timeline_query (default_arg 20 lim) (default_arg 0 off)) = Inr result"
    and "records result = Rows rs"
    and "i < length (getPublicTimeline ex cfg lim off)"
  shows "length (getPublicTimeline ex cfg lim off) = length rs \<and>
    (\<forall>xs. fld (rs ! i) ''likes'' = JArr xs \<longrightarrow>
       like_count (getPublicTimeline ex cfg lim off ! i) = JNum (int (length xs))) \<and>
    (\<forall>xs. fld (rs ! i) ''retweets'' = JArr xs \<longrightarrow>
       retweet_count (getPublicTimeline ex cfg lim off ! i) = JNum (int (length xs))) \<and>
    (\<forall>xs. fld (rs ! i) ''replies'' = JArr xs \<longrightarrow>
       reply_count (getPublicTimeline ex cfg lim off ! i) = JNum (int (length xs))) \<and>
    (\<forall>xs. fld (rs ! i) ''quotes'' = JArr xs \<longrightarrow>
       quote_count (getPublicTimeline ex cfg lim off ! i) = JNum (int (length xs))) \<and>
    (fld (rs ! i) ''likes'' = JUndefined \<longrightarrow>
       like_count (getPublicTimeline ex cfg lim off ! i) = JNum 0) \<and>
    (fld (rs ! i) ''retweets'' = JUndefined \<longrightarrow>
       retweet_count (getPublicTimeline ex cfg lim off ! i) = JNum 0) \<and>
    (fld (rs ! i) ''replies'' = JUndefined \<longrightarrow>
       reply_count (getPublicTimeline ex cfg lim off ! i) = JNum 0) \<and>
    (fld (rs ! i) ''quotes'' = JUndefined \<longrightarrow>
       quote_count (getPublicTimeline ex cfg lim off ! i) = JNum 0)"
proof -
  note v = getPublicTimeline_views [OF assms]
  note c = timeline_record_Inr(1-4) [OF v(2)]
  show ?thesis
    by (simp add: v(1) c js_or_def)
qed

lemma timeline_t1:
  "getPublicTimeline (timeline_of [tweet_t1]) (example_config addr) None None \<noteq> []"
  by (simp add: getPublicTimeline_def timeline_of_def timeline_record_def tweet_t1_def
      mapTweetData_def js_or_def Let_def like_of_def js_get_def caller_def example_config_def
      split: option.splits)

lemma tweet_t1_fields:
  "fld tweet_t1 ''likes'' = JArr [like_of ''u1'', like_of ''u2'']"
  "fld tweet_t1 ''retweets'' = JArr []"
  "fld tweet_t1 ''replies'' =
     JArr [JObj [(''id'', JStr ''t2''), (''author'', JStr ''a2''), (''created_at'', JStr (day 2))]]"
  "fld tweet_t1 ''quotes'' = JUndefined"
  "fld tweet_t1 ''like_count'' = JNum 99"
  by (simp_all add: tweet_t1_def)

theorem getPublicTimeline_counts_witness:
  "fld tweet_t1 ''like_count'' = JNum 99 \<and>
   like_count (getPublicTimeline (timeline_of [tweet_t1]) (example_config None) None None ! 0) = JNum 2 \<and>
   retweet_count (getPublicTimeline (timeline_of [tweet_t1]) (example_config None) None None ! 0) = JNum 0 \<and>
   reply_count (getPublicTimeline (timeline_of [tweet_t1]) (example_config None) None None ! 0) = JNum 1 \<and>
   quote_count (getPublicTimeline (timeline_of [tweet_t1]) (example_config None) None None ! 0) = JNum 0"
  using getPublicTimeline_counts [of "timeline_of [tweet_t1]" None None "\<lparr>records = Rows [tweet_t1]\<rparr>"
      "[tweet_t1]" 0 "example_config None"] timeline_t1 [of None]
  by (simp add: timeline_of_def tweet_t1_fields)
lemma some_list_user:
  "some_list (\<lambda>like. and_then (js_get like ''user'') (\<lambda>u. Inr (u = JStr a))) ls = Inr b \<Longrightarrow>
   b = (\<exists>l \<in> set ls. fld l ''user'' = JStr a)"
proof (induction ls)
  case Nil
  then show ?case by simp
next
  case (Cons l ls)
  show ?case
  proof (cases "nullish l")
    case True
    with Cons.prems show ?thesis by (simp add: js_get_def)
  next
    case False
    with Cons show ?thesis by (cases "fld l ''user'' = JStr a") (simp_all add: js_get_def)
  qed
qed

lemma scan_likes:
  assumes "js_some (js_or likes (JArr []))
             (\<lambda>like. and_then (js_get like ''user'') (\<lambda>u. Inr (u = JStr a))) = Inr b"
  shows "b = (\<exists>ls. likes = JArr ls \<and> (\<exists>l \<in> set ls. fld l ''user'' = JStr a))"
proof (cases likes)
  case (JArr ls)
  with assms show ?thesis by (simp add: js_or_def some_list_user)
qed (use assms in \<open>auto simp: js_or_def split: if_splits\<close>)

text \<open>
  C4.  For every tweet record that \<^verbatim>\<open>getPublicTimeline\<close> shapes, \<open>user_liked\<close> is \<^verbatim>\<open>true\<close>
  exactly when a caller address is configured (\<^verbatim>\<open>currentUserAddress\<close> is set and not empty)
  and the joined likes hold an entry whose \<^verbatim>\<open>user\<close> is that address; it is a boolean, and
  \<^verbatim>\<open>false\<close> when no caller address is configured.
\<close>

theorem getPublicTimeline_user_liked:
  assumes "ex (timeline_query (default_arg 20 lim) (default_arg 0 off)) = Inr result"
    and "records result = Rows rs"
    and "i < length (getPublicTimeline ex cfg lim off)"
  shows "(user_liked (getPublicTimeline ex cfg lim off ! i) = JBool True \<longleftrightarrow>
            (\<exists>a. currentUserAddress cfg = Some a \<and> a \<noteq> [] \<and>
               (\<exists>ls. fld (rs ! i) ''likes'' = JArr ls \<and> (\<exists>l \<in> set ls. fld l ''user'' = JStr a)))) \<and>
         (user_liked (getPublicTimeline ex cfg lim off ! i) = JBool True \<or>
          user_liked (getPublicTimeline ex cfg lim off ! i) = JBool False) \<and>
         (currentUserAddress cfg = None \<longrightarrow>
            user_liked (getPublicTimeline ex cfg lim off ! i) = JBool False)"
proof -
  let ?v = "getPublicTimeline ex cfg lim off ! i"
  note v = getPublicTimeline_views [OF assms]
  from timeline_record_Inr(7) [OF v(2)] obtain b where b: "user_liked ?v = JBool b"
    "(case caller cfg of
        Some a \<Rightarrow> js_some (js_or (fld (rs ! i) ''likes'') (JArr []))
                    (\<lambda>like. and_then (js_get like ''user'') (\<lambda>u. Inr (u = JStr a)))
      | None \<Rightarrow> Inr False) = Inr b"
    by blast
  show ?thesis
  proof (cases "caller cfg")
    case None
    with b(2) have "b = False" by simp
    moreover from None have "\<not> (\<exists>a. currentUserAddress cfg = Some a \<and> a \<noteq> [])"
      by (auto simp: caller_def split: option.splits if_splits)
    ultimately show ?thesis using b(1) by auto
  next
    case (Some a)
    then have a: "currentUserAddress cfg = Some a" "a \<noteq> []"
      by (auto simp: caller_def split: option.splits if_splits)
    from b(2) Some have "b = (\<exists>ls. fld (rs ! i) ''likes'' = JArr ls \<and>
        (\<exists>l \<in> set ls. fld l ''user'' = JStr a))"
      by (simp add: scan_likes)
    with a b(1) show ?thesis by auto
  qed
qed

theorem getPublicTimeline_user_liked_witness:
  "fld tweet_t1 ''likes'' = JArr [like_of ''u1'', like_of ''u2''] \<and>
   user_liked (getPublicTimeline (timeline_of [tweet_t1]) (example_config (Some ''u1'')) None None ! 0)
     = JBool True \<and>
   user_liked (getPublicTimeline (timeline_of [tweet_t1]) (example_config (Some ''u3'')) None None ! 0)
     = JBool False \<and>
   user_liked (getPublicTimeline (timeline_of [tweet_t1]) (example_config None) None None ! 0)
     = JBool False"
proof -
  have ex: "timeline_of [tweet_t1] (timeline_query (default_arg 20 None) (default_arg 0 None)) =
      Inr \<lparr>records = Rows [tweet_t1]\<rparr>"
    by (simp add: timeline_of_def)
  have len: "0 < length (getPublicTimeline (timeline_of [tweet_t1]) (example_config addr) None None)"
    for addr using timeline_t1 [of addr] by simp
  have likes: "fld tweet_t1 ''likes'' = JArr [like_of ''u1'', like_of ''u2'']"
    by (rule tweet_t1_fields)
  have u1: "user_liked (getPublicTimeline (timeline_of [tweet_t1])
      (example_config (Some ''u1'')) None None ! 0) = JBool True"
    using getPublicTimeline_user_liked [OF ex _ len [of "Some ''u1''"]]
    by (simp add: likes example_config_def like_of_def)
  have u3: "user_liked (getPublicTimeline (timeline_of [tweet_t1])
      (example_config (Some ''u3'')) None None ! 0) = JBool False"
    using getPublicTimeline_user_liked [OF ex _ len [of "Some ''u3''"]]
    by (auto simp: likes example_config_def like_of_def)
  have none: "user_liked (getPublicTimeline (timeline_of [tweet_t1])
      (example_config None) None None ! 0) = JBool False"
    using getPublicTimeline_user_liked [OF ex _ len [of None]]
    by (simp add: example_config_def)
  from likes u1 u3 none show ?thesis by simp
qed

subsection \<open>Records without content\<close>


lemma and_then_Inr [simp]: "and_then x Inr = x"
  by (cases x) auto



lemma map_err_sources:
  "map_err f xs = Inr ys \<Longrightarrow> y \<in> set ys \<Longrightarrow> \<exists>x \<in> set xs. f x = Inr y"
  using map_err_nth [of f xs ys] by (metis in_set_conv_nth)







subsection \<open>getUserWithTweets\<close>

lemma valid_tweet_iff: "valid_tweet t = (truthy t \<and> truthy (fld t ''content''))"
  by (simp add: valid_tweet_def js_and_def)

lemma truthy_not_nullish: "truthy t \<Longrightarrow> \<not> nullish t"
  by (cases t) auto

lemma map_err_total:
  "list_all (\<lambda>x. \<exists>y. f x = Inr y) xs \<Longrightarrow> \<exists>ys. map_err f xs = Inr ys \<and> map Inr ys = map f xs"
  by (induction xs) auto

lemma array_or_empty_js_or: "array_or_empty (js_or x (JArr [])) = array_or_empty x"
  by (cases x) (auto simp: js_or_def)

lemma tweets_case:
  "(case js_or x (JArr []) of
      JArr ts \<Rightarrow> map_err f (slice0 (filter p ts) n)
    | _ \<Rightarrow> Inr []) = map_err f (slice0 (filter p (array_or_empty x)) n)"
  by (cases x) (simp_all add: js_or_def slice0_def)

lemma slice0_subset: "set (slice0 xs n) \<subseteq> set xs"
  by (auto simp: slice0_def dest: in_set_takeD)

text \<open>
  When the query returns a user record, the tweets are the views of the first elements of
  the filtered joined sequence, and the followers and following are the joined arrays.
\<close>

lemma getUserWithTweets_found:
  assumes "ex (user_with_tweets_query address) = Inr result"
    and "records result = Rows (u # rest)"
    and "\<not> nullish u"
  shows "map Inr (tweets (getUserWithTweets ex address lim)) =
           map (\<lambda>t. mapTweetData t JUndefined JUndefined)
             (slice0 (filter valid_tweet (array_or_empty (fld u ''user_tweets'')))
                (default_arg 50 lim))"
    and "followers (getUserWithTweets ex address lim) = array_or_empty (fld u ''followers'')"
    and "following (getUserWithTweets ex address lim) = array_or_empty (fld u ''following'')"
proof -
  let ?ts = "slice0 (filter valid_tweet (array_or_empty (fld u ''user_tweets'')))
                (default_arg 50 lim)"
  let ?f = "\<lambda>t. mapTweetData t JUndefined JUndefined"
  have "list_all (\<lambda>t. \<exists>y. ?f t = Inr y) ?ts"
    using slice0_subset [of "filter valid_tweet (array_or_empty (fld u ''user_tweets''))"
        "default_arg 50 lim"]
    by (auto simp: list_all_iff valid_tweet_iff mapTweetData_def dest: truthy_not_nullish)
  from map_err_total [OF this] obtain vs where vs: "map_err ?f ?ts = Inr vs"
      "map Inr vs = map ?f ?ts"
    by blast
  have shaped: "(case js_or (fld u ''user_tweets'') (JArr []) of
                   JArr ts \<Rightarrow> map_err ?f (slice0 (filter valid_tweet ts) (default_arg 50 lim))
                 | _ \<Rightarrow> Inr []) = Inr vs"
    unfolding tweets_case using vs(1) by simp
  have out: "getUserWithTweets ex address lim =
      \<lparr>user =
         set_fld ''following_count'' (JNum (int (length (array_or_empty (fld u ''following'')))))
           (set_fld ''follower_count'' (JNum (int (length (array_or_empty (fld u ''followers'')))))
             (rest_without [''user_tweets'', ''followers'', ''following''] u)),
       tweets = vs,
       followers = array_or_empty (fld u ''followers''),
       following = array_or_empty (fld u ''following'')\<rparr>"
    using assms shaped by (simp add: getUserWithTweets_def Let_def)
  show "map Inr (tweets (getUserWithTweets ex address lim)) = map ?f ?ts"
    and "followers (getUserWithTweets ex address lim) = array_or_empty (fld u ''followers'')"
    and "following (getUserWithTweets ex address lim) = array_or_empty (fld u ''following'')"
    using vs(2) by (simp_all add: out)
qed














subsection \<open>Errors and missing aliases\<close>

lemma and_then_fails: "(\<And>v. \<exists>e. f v = Inl e) \<Longrightarrow> \<exists>e. and_then x f = Inl e"
  by (cases x) auto

lemma for_push_fails:
  "x \<in> set xs \<Longrightarrow> body x = Inl e \<Longrightarrow> \<exists>e'. for_push body xs = Inl e'"
proof (induction xs)
  case Nil
  then show ?case by simp
next
  case (Cons y ys)
  show ?case
  proof (cases "x = y")
    case True
    with Cons.prems show ?thesis by simp
  next
    case False
    with Cons obtain e' where "for_push body ys = Inl e'" by auto
    then show ?thesis by (cases "body y") auto
  qed
qed

lemma reply_record_like_fails:
  "\<not> nullish r \<Longrightarrow> truthy (fld r ''content'') \<Longrightarrow> caller cfg = Some a \<Longrightarrow>
   ex (like_query (JStr a) (fld r ''id'')) = Inl e \<Longrightarrow> reply_record ex cfg r = Inl e"
  by (simp add: reply_record_def js_get_def user_liked_of_def)

text \<open>The operations return their default when the query, or a query for a like, throws.\<close>

lemma read_defaults:
  "ex (timeline_query (default_arg 20 lim) (default_arg 0 off)) = Inl e \<Longrightarrow>
     getPublicTimeline ex cfg lim off = []"
  "ex (author_query address (default_arg 20 lim)) = Inl e \<Longrightarrow>
     getTweetsByAuthor ex address lim = []"
  "ex (tweet_with_replies_query tweetId) = Inl e \<Longrightarrow>
     getTweetWithReplies ex cfg tweetId = \<lparr>tweet = None, replies = [], total_replies = 0\<rparr>"
  "ex (tweet_query tweetId) = Inl e \<Longrightarrow> getTweet ex tweetId = None"
  "ex (replies_query tweetId (default_arg 50 lim)) = Inl e \<Longrightarrow> getReplies ex cfg tweetId lim = []"
  "ex (user_query address) = Inl e \<Longrightarrow> getUser ex address = JNull"
  "ex (user_with_tweets_query address) = Inl e \<Longrightarrow>
     getUserWithTweets ex address lim = \<lparr>user = JNull, tweets = [], followers = [], following = []\<rparr>"
  "ex (follows_query a b) = Inl e \<Longrightarrow> isFollowing rt ex a b = False"
  by (simp_all add: getPublicTimeline_def getTweetsByAuthor_def getTweetWithReplies_def
      getTweet_def getReplies_def getUser_def getUserWithTweets_def isFollowing_def
      no_tweet_def no_user_def)

lemma getTweetWithReplies_like_fails:
  assumes "ex (tweet_with_replies_query tweetId) = Inr result"
    and "records result = Rows (tw # rest)"
    and "caller cfg = Some a"
    and "ex (like_query (JStr a) (JStr tweetId)) = Inl e"
  shows "getTweetWithReplies ex cfg tweetId = \<lparr>tweet = None, replies = [], total_replies = 0\<rparr>"
  using assms by (simp add: getTweetWithReplies_def user_liked_of_def no_tweet_def)

lemma getTweetWithReplies_reply_like_fails:
  assumes "ex (tweet_with_replies_query tweetId) = Inr result"
    and "records result = Rows (tw # rest)"
    and "fld tw ''replies'' = JArr rs" and "r \<in> set rs"
    and "\<not> nullish r" and "truthy (fld r ''content'')"
    and "caller cfg = Some a"
    and "ex (like_query (JStr a) (fld r ''id'')) = Inl e"
  shows "getTweetWithReplies ex cfg tweetId = \<lparr>tweet = None, replies = [], total_replies = 0\<rparr>"
proof -
  let ?loop = "\<lambda>t. and_then (js_iter (js_or (fld tw ''replies'') (JArr [])))
                              (\<lambda>repliesData.
                                and_then (for_push (reply_record ex cfg) repliesData)
                                  (\<lambda>rs.
                                    Inr \<lparr>tweet = Some (with_joined tw t),
                                         replies = rs,
                                         total_replies = length rs\<rparr>))"
  let ?body = "and_then (user_liked_of ex cfg (JStr tweetId))
                  (\<lambda>user_liked.
                    and_then (js_get tw ''author_info'')
                      (\<lambda>authorInfo.
                        and_then (mapTweetData tw user_liked (JBool False)) ?loop))"
  have out: "getTweetWithReplies ex cfg tweetId = catch no_tweet ?body"
    using assms(1,2) by (simp add: getTweetWithReplies_def)
  have "reply_record ex cfg r = Inl e"
    using assms(5-8) by (rule reply_record_like_fails)
  from for_push_fails [of r rs "reply_record ex cfg" e, OF assms(4) this]
  obtain e' where loop: "for_push (reply_record ex cfg) rs = Inl e'" ..
  have inner: "?loop t = Inl e'" for t
    by (simp add: assms(3) js_or_simps loop)
  have "\<exists>e. ?body = Inl e"
  proof (rule and_then_fails)
    fix ul
    show "\<exists>e. and_then (js_get tw ''author_info'')
                      (\<lambda>authorInfo.
                        and_then (mapTweetData tw ul (JBool False)) ?loop) = Inl e"
    proof (rule and_then_fails)
      fix authorInfo
      show "\<exists>e. and_then (mapTweetData tw ul (JBool False)) ?loop = Inl e"
      proof (rule and_then_fails)
        fix t
        show "\<exists>e. ?loop t = Inl e" using inner [of t] by blast
      qed
    qed
  qed
  then obtain e'' where "?body = Inl e''" by blast
  then have "catch no_tweet ?body = no_tweet" by (simp only: catch.simps)
  with out show ?thesis by (simp only: no_tweet_def)
qed

lemma getReplies_like_fails:
  assumes "ex (replies_query tweetId (default_arg 50 lim)) = Inr result"
    and "records result = Rows rs" and "r \<in> set rs"
    and "\<not> nullish r" and "truthy (fld r ''content'')"
    and "caller cfg = Some a"
    and "ex (like_query (JStr a) (fld r ''id'')) = Inl e"
  shows "getReplies ex cfg tweetId lim = []"
proof -
  have "reply_record ex cfg r = Inl e"
    using assms(4-7) by (rule reply_record_like_fails)
  from for_push_fails [of r rs "reply_record ex cfg" e, OF assms(3) this]
  obtain e' where "for_push (reply_record ex cfg) rs = Inl e'" ..
  with assms(1,2) show ?thesis by (simp add: getReplies_def)
qed

text \<open>Missing aliases.\<close>

lemma slice0_Nil: "slice0 [] n = []"
  by (simp add: slice0_def)

lemma joined_or_null_missing: "fld r alias = JUndefined \<Longrightarrow> joined_or_null r alias = None"
  by (simp add: joined_or_null_def js_or_simps)

lemma timeline_record_no_likes:
  "\<not> nullish r \<Longrightarrow> fld r ''likes'' = JUndefined \<Longrightarrow>
   \<exists>v. timeline_record cfg r = Inr v \<and> like_count v = JNum 0 \<and> user_liked v = JBool False"
proof -
  assume r: "\<not> nullish r" "fld r ''likes'' = JUndefined"
  have scan: "(case caller cfg of
        Some a \<Rightarrow> js_some (js_or (fld r ''likes'') (JArr []))
                    (\<lambda>like. and_then (js_get like ''user'') (\<lambda>u. Inr (u = JStr a)))
      | None \<Rightarrow> Inr False) = Inr False"
    using r(2) by (simp add: js_or_simps split: option.splits)
  from r obtain v where v: "timeline_record cfg r = Inr v"
    by (cases "caller cfg") (simp_all add: timeline_record_def Let_def mapTweetData_def js_or_simps)
  from timeline_record_Inr(1,7) [OF v] scan r(2)
  have "like_count v = JNum 0 \<and> user_liked v = JBool False"
    by (auto simp: js_or_simps)
  with v show ?thesis by blast
qed

lemma timeline_record_missing:
  assumes "timeline_record cfg r = Inr v"
  shows "(fld r ''retweets'' = JUndefined \<longrightarrow> retweet_count v = JNum 0) \<and>
         (fld r ''replies'' = JUndefined \<longrightarrow> reply_count v = JNum 0) \<and>
         (fld r ''quotes'' = JUndefined \<longrightarrow> quote_count v = JNum 0) \<and>
         (fld r ''author_info'' = JUndefined \<longrightarrow> author_info v = None) \<and>
         (fld r ''quote_tweet'' = JUndefined \<longrightarrow> quote_tweet v = None)"
  using timeline_record_Inr(2-6) [OF assms]
  by (simp add: js_or_simps joined_or_null_missing)

lemma author_record_missing:
  "\<not> nullish r \<Longrightarrow>
   \<exists>v. author_record r = Inr v \<and>
     (fld r ''author_info'' = JUndefined \<longrightarrow> author_info v = None) \<and>
     (fld r ''quote_tweet'' = JUndefined \<longrightarrow> quote_tweet v = None)"
  by (simp add: author_record_def mapTweetData_def with_joined_def joined_or_null_missing)

lemma getTweetWithReplies_no_replies:
  assumes "ex (tweet_with_replies_query tweetId) = Inr result"
    and "records result = Rows (tw # rest)"
    and "\<not> nullish tw" and "fld tw ''replies'' = JUndefined"
    and "user_liked_of ex cfg (JStr tweetId) = Inr ul"
  shows "\<exists>t. getTweetWithReplies ex cfg tweetId =
           \<lparr>tweet = Some t, replies = [], total_replies = 0\<rparr>"
  using assms
  by (simp add: getTweetWithReplies_def js_get_def mapTweetData_def js_or_simps)

lemma getUserWithTweets_missing:
  assumes "ex (user_with_tweets_query address) = Inr result"
    and "records result = Rows (u # rest)"
    and "\<not> nullish u"
  shows "(fld u ''user_tweets'' = JUndefined \<longrightarrow> tweets (getUserWithTweets ex address lim) = []) \<and>
         (fld u ''followers'' = JUndefined \<longrightarrow> followers (getUserWithTweets ex address lim) = []) \<and>
         (fld u ''following'' = JUndefined \<longrightarrow> following (getUserWithTweets ex address lim) = [])"
  using getUserWithTweets_found [of ex address result u rest lim] assms
  by (auto simp: slice0_Nil)

lemma timeline_record_shapes:
  assumes "\<not> nullish r"
    and "(case caller cfg of
            Some a \<Rightarrow> js_some (js_or (fld r ''likes'') (JArr []))
                        (\<lambda>like. and_then (js_get like ''user'') (\<lambda>u. Inr (u = JStr a)))
          | None \<Rightarrow> Inr False) = Inr ul"
  shows "\<exists>v. timeline_record cfg r = Inr v \<and> user_liked v = JBool ul \<and>
           (fld r ''likes'' = JUndefined \<longrightarrow> like_count v = JNum 0) \<and>
           (fld r ''retweets'' = JUndefined \<longrightarrow> retweet_count v = JNum 0) \<and>
           (fld r ''replies'' = JUndefined \<longrightarrow> reply_count v = JNum 0) \<and>
           (fld r ''quotes'' = JUndefined \<longrightarrow> quote_count v = JNum 0) \<and>
           (fld r ''author_info'' = JUndefined \<longrightarrow> author_info v = None) \<and>
           (fld r ''quote_tweet'' = JUndefined \<longrightarrow> quote_tweet v = None)"
proof -
  from assms obtain v where v: "timeline_record cfg r = Inr v"
    by (simp add: timeline_record_def Let_def mapTweetData_def)
  from timeline_record_Inr(7) [OF v] assms(2) have ul: "user_liked v = JBool ul" by auto
  from timeline_record_Inr(1) [OF v]
  have l: "fld r ''likes'' = JUndefined \<longrightarrow> like_count v = JNum 0"
    by (simp add: js_or_simps)
  from v ul l timeline_record_missing [OF v] show ?thesis by blast
qed

lemma some_list_total:
  "list_all (\<lambda>l. \<not> nullish l) ls \<Longrightarrow>
   \<exists>b. some_list (\<lambda>like. and_then (js_get like ''user'') (\<lambda>u. Inr (u = JStr a))) ls = Inr b"
  by (induction ls) (auto simp: js_get_def)

lemma likes_scan_total:
  assumes "fld r ''likes'' = JUndefined \<or>
           (\<exists>ls. fld r ''likes'' = JArr ls \<and> list_all (\<lambda>l. \<not> nullish l) ls)"
  shows "\<exists>ul. (case caller cfg of
            Some a \<Rightarrow> js_some (js_or (fld r ''likes'') (JArr []))
                        (\<lambda>like. and_then (js_get like ''user'') (\<lambda>u. Inr (u = JStr a)))
          | None \<Rightarrow> Inr False) = Inr ul"
proof (cases "caller cfg")
  case None
  then show ?thesis by auto
next
  case (Some a)
  from assms show ?thesis
  proof
    assume "fld r ''likes'' = JUndefined"
    with Some show ?thesis by (auto simp: js_or_simps)
  next
    assume "\<exists>ls. fld r ''likes'' = JArr ls \<and> list_all (\<lambda>l. \<not> nullish l) ls"
    then obtain ls where ls: "fld r ''likes'' = JArr ls" "list_all (\<lambda>l. \<not> nullish l) ls"
      by blast
    from some_list_total [OF ls(2), of a] Some ls(1) show ?thesis
      by (auto simp: js_or_simps)
  qed
qed

lemma timeline_record_joined_likes:
  assumes "\<not> nullish r" and "fld r ''likes'' = JArr ls" and "list_all (\<lambda>l. \<not> nullish l) ls"
  shows "\<exists>v. timeline_record cfg r = Inr v \<and> like_count v = JNum (int (length ls)) \<and>
           (fld r ''retweets'' = JUndefined \<longrightarrow> retweet_count v = JNum 0) \<and>
           (fld r ''replies'' = JUndefined \<longrightarrow> reply_count v = JNum 0) \<and>
           (fld r ''quotes'' = JUndefined \<longrightarrow> quote_count v = JNum 0) \<and>
           (fld r ''author_info'' = JUndefined \<longrightarrow> author_info v = None) \<and>
           (fld r ''quote_tweet'' = JUndefined \<longrightarrow> quote_tweet v = None)"
proof -
  from likes_scan_total [of r cfg] assms(2,3) obtain ul where
    "(case caller cfg of
            Some a \<Rightarrow> js_some (js_or (fld r ''likes'') (JArr []))
                        (\<lambda>like. and_then (js_get like ''user'') (\<lambda>u. Inr (u = JStr a)))
          | None \<Rightarrow> Inr False) = Inr ul" by blast
  from timeline_record_shapes [OF assms(1) this] obtain v where
    v: "timeline_record cfg r = Inr v"
      "(fld r ''retweets'' = JUndefined \<longrightarrow> retweet_count v = JNum 0) \<and>
           (fld r ''replies'' = JUndefined \<longrightarrow> reply_count v = JNum 0) \<and>
           (fld r ''quotes'' = JUndefined \<longrightarrow> quote_count v = JNum 0) \<and>
           (fld r ''author_info'' = JUndefined \<longrightarrow> author_info v = None) \<and>
           (fld r ''quote_tweet'' = JUndefined \<longrightarrow> quote_tweet v = None)"
    by blast
  from timeline_record_Inr(1) [OF v(1)] assms(2)
  have "like_count v = JNum (int (length ls))" by (simp add: js_or_simps)
  with v show ?thesis by blast
qed

lemma timeline_record_missing_likes:
  assumes "\<not> nullish r" and "fld r ''likes'' = JUndefined"
  shows "\<exists>v. timeline_record cfg r = Inr v \<and> like_count v = JNum 0 \<and>
           user_liked v = JBool False \<and>
           (fld r ''retweets'' = JUndefined \<longrightarrow> retweet_count v = JNum 0) \<and>
           (fld r ''replies'' = JUndefined \<longrightarrow> reply_count v = JNum 0) \<and>
           (fld r ''quotes'' = JUndefined \<longrightarrow> quote_count v = JNum 0) \<and>
           (fld r ''author_info'' = JUndefined \<longrightarrow> author_info v = None) \<and>
           (fld r ''quote_tweet'' = JUndefined \<longrightarrow> quote_tweet v = None)"
proof -
  from timeline_record_no_likes [OF assms, of cfg] obtain v where
    v: "timeline_record cfg r = Inr v" "like_count v = JNum 0" "user_liked v = JBool False"
    by blast
  from v timeline_record_missing [OF v(1)] show ?thesis by blast
qed

lemma reply_record_missing:
  assumes "\<not> nullish r" and "truthy (fld r ''content'')"
    and "user_liked_of ex cfg (fld r ''id'') = Inr ul"
  shows "\<exists>v. reply_record ex cfg r = Inr (Some v) \<and>
           (fld r ''author_info'' = JUndefined \<longrightarrow> author_info v = None) \<and>
           (fld r ''quote_tweet'' = JUndefined \<longrightarrow> quote_tweet v = None)"
  using assms
  by (simp add: reply_record_def js_get_def mapTweetData_def with_joined_def
      joined_or_null_missing)

text \<open>
  C8.  The read operations swallow every exception.  If the query of the operation throws,
  the operation returns its empty default: the empty array, \<^verbatim>\<open>null\<close>, \<^verbatim>\<open>false\<close>, or the result
  object without a tweet or a user; so do \<^verbatim>\<open>getTweetWithReplies\<close> and \<^verbatim>\<open>getReplies\<close> when one of
  their queries for a like throws.  A joined alias that is missing from a record is read as
  the empty sequence or as \<^verbatim>\<open>null\<close> and does not throw.  A timeline record (any value but
  \<^verbatim>\<open>null\<close> and \<^verbatim>\<open>undefined\<close>) is shaped to a view whenever the scan of its likes succeeds, as
  it does when the likes are missing or are an array of records; in that view the count of
  a missing alias is \<open>0\<close>, \<open>user_liked\<close> is false without likes, and the optional views are
  absent when their alias is missing.  A reply with content whose like query succeeds is
  shaped with its optional views absent when their alias is missing; so are the records of
  \<^verbatim>\<open>getTweetsByAuthor\<close>.  Missing \<^verbatim>\<open>replies\<close>, \<^verbatim>\<open>user_tweets\<close>, \<^verbatim>\<open>followers\<close> and \<^verbatim>\<open>following\<close>
  give empty arrays.
\<close>

theorem read_operations_degrade:
  "(ex (timeline_query (default_arg 20 lim) (default_arg 0 off)) = Inl e \<longrightarrow>
      getPublicTimeline ex cfg lim off = []) \<and>
   (ex (author_query address (default_arg 20 lim)) = Inl e \<longrightarrow>
      getTweetsByAuthor ex address lim = []) \<and>
   (ex (tweet_with_replies_query tweetId) = Inl e \<longrightarrow>
      getTweetWithReplies ex cfg tweetId = \<lparr>tweet = None, replies = [], total_replies = 0\<rparr>) \<and>
   (ex (tweet_query tweetId) = Inl e \<longrightarrow> getTweet ex tweetId = None) \<and>
   (ex (replies_query tweetId (default_arg 50 lim)) = Inl e \<longrightarrow>
      getReplies ex cfg tweetId lim = []) \<and>
   (ex (user_query address) = Inl e \<longrightarrow> getUser ex address = JNull) \<and>
   (ex (user_with_tweets_query address) = Inl e \<longrightarrow>
      getUserWithTweets ex address lim =
        \<lparr>user = JNull, tweets = [], followers = [], following = []\<rparr>) \<and>
   (ex (follows_query a b) = Inl e \<longrightarrow> isFollowing rt ex a b = False) \<and>
   (\<forall>result tw rest c.
      ex (tweet_with_replies_query tweetId) = Inr result \<and> records result = Rows (tw # rest) \<and>
      caller cfg = Some c \<and> ex (like_query (JStr c) (JStr tweetId)) = Inl e \<longrightarrow>
      getTweetWithReplies ex cfg tweetId = \<lparr>tweet = None, replies = [], total_replies = 0\<rparr>) \<and>
   (\<forall>result tw rest rs r c.
      ex (tweet_with_replies_query tweetId) = Inr result \<and> records result = Rows (tw # rest) \<and>
      fld tw ''replies'' = JArr rs \<and> r \<in> set rs \<and> \<not> nullish r \<and> truthy (fld r ''content'') \<and>
      caller cfg = Some c \<and> ex (like_query (JStr c) (fld r ''id'')) = Inl e \<longrightarrow>
      getTweetWithReplies ex cfg tweetId = \<lparr>tweet = None, replies = [], total_replies = 0\<rparr>) \<and>
   (\<forall>result rs r c.
      ex (replies_query tweetId (default_arg 50 lim)) = Inr result \<and> records result = Rows rs \<and>
      r \<in> set rs \<and> \<not> nullish r \<and> truthy (fld r ''content'') \<and>
      caller cfg = Some c \<and> ex (like_query (JStr c) (fld r ''id'')) = Inl e \<longrightarrow>
      getReplies ex cfg tweetId lim = []) \<and>
   (\<forall>r. \<not> nullish r \<and> fld r ''likes'' = JUndefined \<longrightarrow>
      (\<exists>v. timeline_record cfg r = Inr v \<and> like_count v = JNum 0 \<and> user_liked v = JBool False \<and>
      (fld r ''retweets'' = JUndefined \<longrightarrow> retweet_count v = JNum 0) \<and>
      (fld r ''replies'' = JUndefined \<longrightarrow> reply_count v = JNum 0) \<and>
      (fld r ''quotes'' = JUndefined \<longrightarrow> quote_count v = JNum 0) \<and>
      (fld r ''author_info'' = JUndefined \<longrightarrow> author_info v = None) \<and>
      (fld r ''quote_tweet'' = JUndefined \<longrightarrow> quote_tweet v = None))) \<and>
   (\<forall>r ls. \<not> nullish r \<and> fld r ''likes'' = JArr ls \<and> list_all (\<lambda>l. \<not> nullish l) ls \<longrightarrow>
      (\<exists>v. timeline_record cfg r = Inr v \<and> like_count v = JNum (int (length ls)) \<and>
      (fld r ''retweets'' = JUndefined \<longrightarrow> retweet_count v = JNum 0) \<and>
      (fld r ''replies'' = JUndefined \<longrightarrow> reply_count v = JNum 0) \<and>
      (fld r ''quotes'' = JUndefined \<longrightarrow> quote_count v = JNum 0) \<and>
      (fld r ''author_info'' = JUndefined \<longrightarrow> author_info v = None) \<and>
      (fld r ''quote_tweet'' = JUndefined \<longrightarrow> quote_tweet v = None))) \<and>
   (\<forall>r ul. \<not> nullish r \<and>
      (case caller cfg of
         Some c \<Rightarrow> js_some (js_or (fld r ''likes'') (JArr []))
                     (\<lambda>like. and_then (js_get like ''user'') (\<lambda>u. Inr (u = JStr c)))
       | None \<Rightarrow> Inr False) = Inr ul \<longrightarrow>
      (\<exists>v. timeline_record cfg r = Inr v \<and> user_liked v = JBool ul \<and>
      (fld r ''likes'' = JUndefined \<longrightarrow> like_count v = JNum 0) \<and>
      (fld r ''retweets'' = JUndefined \<longrightarrow> retweet_count v = JNum 0) \<and>
      (fld r ''replies'' = JUndefined \<longrightarrow> reply_count v = JNum 0) \<and>
      (fld r ''quotes'' = JUndefined \<longrightarrow> quote_count v = JNum 0) \<and>
      (fld r ''author_info'' = JUndefined \<longrightarrow> author_info v = None) \<and>
      (fld r ''quote_tweet'' = JUndefined \<longrightarrow> quote_tweet v = None))) \<and>
   (\<forall>r ul. \<not> nullish r \<and> truthy (fld r ''content'') \<and>
      user_liked_of ex cfg (fld r ''id'') = Inr ul \<longrightarrow>
      (\<exists>v. reply_record ex cfg r = Inr (Some v) \<and>
      (fld r ''author_info'' = JUndefined \<longrightarrow> author_info v = None) \<and>
      (fld r ''quote_tweet'' = JUndefined \<longrightarrow> quote_tweet v = None))) \<and>
   (\<forall>r v. timeline_record cfg r = Inr v \<longrightarrow>
      (fld r ''retweets'' = JUndefined \<longrightarrow> retweet_count v = JNum 0) \<and>
      (fld r ''replies'' = JUndefined \<longrightarrow> reply_count v = JNum 0) \<and>
      (fld r ''quotes'' = JUndefined \<longrightarrow> quote_count v = JNum 0) \<and>
      (fld r ''author_info'' = JUndefined \<longrightarrow> author_info v = None) \<and>
      (fld r ''quote_tweet'' = JUndefined \<longrightarrow> quote_tweet v = None)) \<and>
   (\<forall>r. \<not> nullish r \<longrightarrow>
      (\<exists>v. author_record r = Inr v \<and>
         (fld r ''author_info'' = JUndefined \<longrightarrow> author_info v = None) \<and>
         (fld r ''quote_tweet'' = JUndefined \<longrightarrow> quote_tweet v = None))) \<and>
   (\<forall>result tw rest ul.
      ex (tweet_with_replies_query tweetId) = Inr result \<and> records result = Rows (tw # rest) \<and>
      \<not> nullish tw \<and> fld tw ''replies'' = JUndefined \<and>
      user_liked_of ex cfg (JStr tweetId) = Inr ul \<longrightarrow>
      (\<exists>t. getTweetWithReplies ex cfg tweetId =
         \<lparr>tweet = Some t, replies = [], total_replies = 0\<rparr>)) \<and>
   (\<forall>result u rest.
      ex (user_with_tweets_query address) = Inr result \<and> records result = Rows (u # rest) \<and>
      \<not> nullish u \<longrightarrow>
      (fld u ''user_tweets'' = JUndefined \<longrightarrow> tweets (getUserWithTweets ex address lim) = []) \<and>
      (fld u ''followers'' = JUndefined \<longrightarrow> followers (getUserWithTweets ex address lim) = []) \<and>
      (fld u ''following'' = JUndefined \<longrightarrow> following (getUserWithTweets ex address lim) = []))"
proof (intro conjI allI impI; (elim conjE)?)
  fix result tw rest c
  assume "ex (tweet_with_replies_query tweetId) = Inr result" "records result = Rows (tw # rest)"
    "caller cfg = Some c" "ex (like_query (JStr c) (JStr tweetId)) = Inl e"
  then show "getTweetWithReplies ex cfg tweetId = \<lparr>tweet = None, replies = [], total_replies = 0\<rparr>"
    by (rule getTweetWithReplies_like_fails)
next
  fix result tw rest rs r c
  assume "ex (tweet_with_replies_query tweetId) = Inr result" "records result = Rows (tw # rest)"
    "fld tw ''replies'' = JArr rs" "r \<in> set rs" "\<not> nullish r" "truthy (fld r ''content'')"
    "caller cfg = Some c" "ex (like_query (JStr c) (fld r ''id'')) = Inl e"
  then show "getTweetWithReplies ex cfg tweetId = \<lparr>tweet = None, replies = [], total_replies = 0\<rparr>"
    by (rule getTweetWithReplies_reply_like_fails)
next
  fix result rs r c
  assume "ex (replies_query tweetId (default_arg 50 lim)) = Inr result" "records result = Rows rs"
    "r \<in> set rs" "\<not> nullish r" "truthy (fld r ''content'')"
    "caller cfg = Some c" "ex (like_query (JStr c) (fld r ''id'')) = Inl e"
  then show "getReplies ex cfg tweetId lim = []"
    by (rule getReplies_like_fails)
next
  fix r
  assume "\<not> nullish r" "fld r ''likes'' = JUndefined"
  then show "\<exists>v. timeline_record cfg r = Inr v \<and> like_count v = JNum 0 \<and> user_liked v = JBool False \<and>
      (fld r ''retweets'' = JUndefined \<longrightarrow> retweet_count v = JNum 0) \<and>
      (fld r ''replies'' = JUndefined \<longrightarrow> reply_count v = JNum 0) \<and>
      (fld r ''quotes'' = JUndefined \<longrightarrow> quote_count v = JNum 0) \<and>
      (fld r ''author_info'' = JUndefined \<longrightarrow> author_info v = None) \<and>
      (fld r ''quote_tweet'' = JUndefined \<longrightarrow> quote_tweet v = None)"
    by (rule timeline_record_missing_likes)
next
  fix r ls
  assume "\<not> nullish r" "fld r ''likes'' = JArr ls" "list_all (\<lambda>l. \<not> nullish l) ls"
  then show "\<exists>v. timeline_record cfg r = Inr v \<and> like_count v = JNum (int (length ls)) \<and>
      (fld r ''retweets'' = JUndefined \<longrightarrow> retweet_count v = JNum 0) \<and>
      (fld r ''replies'' = JUndefined \<longrightarrow> reply_count v = JNum 0) \<and>
      (fld r ''quotes'' = JUndefined \<longrightarrow> quote_count v = JNum 0) \<and>
      (fld r ''author_info'' = JUndefined \<longrightarrow> author_info v = None) \<and>
      (fld r ''quote_tweet'' = JUndefined \<longrightarrow> quote_tweet v = None)"
    by (rule timeline_record_joined_likes)
next
  fix r ul
  assume "\<not> nullish r"
    "(case caller cfg of
         Some c \<Rightarrow> js_some (js_or (fld r ''likes'') (JArr []))
                     (\<lambda>like. and_then (js_get like ''user'') (\<lambda>u. Inr (u = JStr c)))
       | None \<Rightarrow> Inr False) = Inr ul"
  then show "\<exists>v. timeline_record cfg r = Inr v \<and> user_liked v = JBool ul \<and>
      (fld r ''likes'' = JUndefined \<longrightarrow> like_count v = JNum 0) \<and>
      (fld r ''retweets'' = JUndefined \<longrightarrow> retweet_count v = JNum 0) \<and>
      (fld r ''replies'' = JUndefined \<longrightarrow> reply_count v = JNum 0) \<and>
      (fld r ''quotes'' = JUndefined \<longrightarrow> quote_count v = JNum 0) \<and>
      (fld r ''author_info'' = JUndefined \<longrightarrow> author_info v = None) \<and>
      (fld r ''quote_tweet'' = JUndefined \<longrightarrow> quote_tweet v = None)"
    by (rule timeline_record_shapes)
next
  fix r ul
  assume "\<not> nullish r" "truthy (fld r ''content'')" "user_liked_of ex cfg (fld r ''id'') = Inr ul"
  then show "\<exists>v. reply_record ex cfg r = Inr (Some v) \<and>
      (fld r ''author_info'' = JUndefined \<longrightarrow> author_info v = None) \<and>
      (fld r ''quote_tweet'' = JUndefined \<longrightarrow> quote_tweet v = None)"
    by (rule reply_record_missing)
next
  fix r
  assume "\<not> nullish r"
  then show "\<exists>v. author_record r = Inr v \<and>
         (fld r ''author_info'' = JUndefined \<longrightarrow> author_info v = None) \<and>
         (fld r ''quote_tweet'' = JUndefined \<longrightarrow> quote_tweet v = None)"
    by (rule author_record_missing)
next
  fix result tw rest ul
  assume "ex (tweet_with_replies_query tweetId) = Inr result" "records result = Rows (tw # rest)"
    "\<not> nullish tw" "fld tw ''replies'' = JUndefined" "user_liked_of ex cfg (JStr tweetId) = Inr ul"
  then show "\<exists>t. getTweetWithReplies ex cfg tweetId =
         \<lparr>tweet = Some t, replies = [], total_replies = 0\<rparr>"
    by (rule getTweetWithReplies_no_replies)
qed (simp_all add: read_defaults timeline_record_missing getUserWithTweets_missing)

theorem read_operations_degrade_witness:
  "getPublicTimeline (\<lambda>q. Inl TransportError) (example_config (Some ''u1'')) None None = [] \<and>
   getTweetsByAuthor (\<lambda>q. Inl TransportError) ''a2'' None = [] \<and>
   getTweetWithReplies (\<lambda>q. Inl TransportError) (example_config (Some ''u1'')) ''t1'' =
     \<lparr>tweet = None, replies = [], total_replies = 0\<rparr> \<and>
   getTweet (\<lambda>q. Inl TransportError) ''t1'' = None \<and>
   getReplies (\<lambda>q. Inl TransportError) (example_config (Some ''u1'')) ''t1'' None = [] \<and>
   getUser (\<lambda>q. Inl TransportError) ''a2'' = JNull \<and>
   getUserWithTweets (\<lambda>q. Inl TransportError) ''a2'' None =
     \<lparr>user = JNull, tweets = [], followers = [], following = []\<rparr> \<and>
   isFollowing example_runtime (\<lambda>q. Inl TransportError) ''u1'' ''u2'' = False \<and>
   fld (tweet_of ''t5'' ''a2'' ''one'') ''likes'' = JUndefined \<and>
   (\<exists>v. timeline_record (example_config (Some ''u1'')) (tweet_of ''t5'' ''a2'' ''one'') = Inr v \<and>
        like_count v = JNum 0 \<and> user_liked v = JBool False \<and> retweet_count v = JNum 0 \<and>
        reply_count v = JNum 0 \<and> quote_count v = JNum 0 \<and> author_info v = None \<and>
        quote_tweet v = None) \<and>
   fld tweet_t1 ''likes'' = JArr [like_of ''u1'', like_of ''u2''] \<and>
   fld tweet_t1 ''quotes'' = JUndefined \<and>
   fld tweet_t1 ''author_info'' = JUndefined \<and>
   fld tweet_t1 ''quote_tweet'' = JUndefined \<and>
   (\<exists>v. timeline_record (example_config (Some ''u1'')) tweet_t1 = Inr v \<and>
        like_count v = JNum 2 \<and> quote_count v = JNum 0 \<and> author_info v = None \<and>
        quote_tweet v = None)"
proof -
  note th = read_operations_degrade [where ex = "\<lambda>q. Inl TransportError" and e = TransportError
      and cfg = "example_config (Some ''u1'')" and lim = None and off = None
      and address = "''a2''" and tweetId = "''t1''" and a = "''u1''" and b = "''u2''"
      and rt = example_runtime]
  have r: "\<not> nullish (tweet_of ''t5'' ''a2'' ''one'')"
      "fld (tweet_of ''t5'' ''a2'' ''one'') ''likes'' = JUndefined"
      "fld (tweet_of ''t5'' ''a2'' ''one'') ''retweets'' = JUndefined"
      "fld (tweet_of ''t5'' ''a2'' ''one'') ''replies'' = JUndefined"
      "fld (tweet_of ''t5'' ''a2'' ''one'') ''quotes'' = JUndefined"
      "fld (tweet_of ''t5'' ''a2'' ''one'') ''author_info'' = JUndefined"
      "fld (tweet_of ''t5'' ''a2'' ''one'') ''quote_tweet'' = JUndefined"
    by (simp_all add: tweet_of_def)
  have t: "\<not> nullish tweet_t1"
      "fld tweet_t1 ''likes'' = JArr [like_of ''u1'', like_of ''u2'']"
      "list_all (\<lambda>l. \<not> nullish l) [like_of ''u1'', like_of ''u2'']"
      "fld tweet_t1 ''quotes'' = JUndefined"
      "fld tweet_t1 ''author_info'' = JUndefined"
      "fld tweet_t1 ''quote_tweet'' = JUndefined"
    by (simp_all add: tweet_t1_def like_of_def)
  have "\<forall>r. \<not> nullish r \<and> fld r ''likes'' = JUndefined \<longrightarrow>
      (\<exists>v. timeline_record (example_config (Some ''u1'')) r = Inr v \<and>
           like_count v = JNum 0 \<and> user_liked v = JBool False \<and>
      (fld r ''retweets'' = JUndefined \<longrightarrow> retweet_count v = JNum 0) \<and>
      (fld r ''replies'' = JUndefined \<longrightarrow> reply_count v = JNum 0) \<and>
      (fld r ''quotes'' = JUndefined \<longrightarrow> quote_count v = JNum 0) \<and>
      (fld r ''author_info'' = JUndefined \<longrightarrow> author_info v = None) \<and>
      (fld r ''quote_tweet'' = JUndefined \<longrightarrow> quote_tweet v = None))"
    using th by (elim conjE)
  with r have a: "\<exists>v. timeline_record (example_config (Some ''u1'')) (tweet_of ''t5'' ''a2'' ''one'') = Inr v \<and>
        like_count v = JNum 0 \<and> user_liked v = JBool False \<and> retweet_count v = JNum 0 \<and>
        reply_count v = JNum 0 \<and> quote_count v = JNum 0 \<and> author_info v = None \<and>
        quote_tweet v = None"
    by blast
  have "\<forall>r ls. \<not> nullish r \<and> fld r ''likes'' = JArr ls \<and> list_all (\<lambda>l. \<not> nullish l) ls \<longrightarrow>
      (\<exists>v. timeline_record (example_config (Some ''u1'')) r = Inr v \<and>
           like_count v = JNum (int (length ls)) \<and>
      (fld r ''retweets'' = JUndefined \<longrightarrow> retweet_count v = JNum 0) \<and>
      (fld r ''replies'' = JUndefined \<longrightarrow> reply_count v = JNum 0) \<and>
      (fld r ''quotes'' = JUndefined \<longrightarrow> quote_count v = JNum 0) \<and>
      (fld r ''author_info'' = JUndefined \<longrightarrow> author_info v = None) \<and>
      (fld r ''quote_tweet'' = JUndefined \<longrightarrow> quote_tweet v = None))"
    using th by (elim conjE)
  from this [rule_format, of tweet_t1 "[like_of ''u1'', like_of ''u2'']"] t
  have b: "\<exists>v. timeline_record (example_config (Some ''u1'')) tweet_t1 = Inr v \<and>
        like_count v = JNum 2 \<and> quote_count v = JNum 0 \<and> author_info v = None \<and>
        quote_tweet v = None"
    by auto
  from a b r(2) t(2,4,5,6) th show ?thesis by simp
qed

subsection \<open>Follows and likes on the backing store\<close>

lemma stored_versions_not_nullish: "list_all (\<lambda>r. \<not> nullish r) (stored_versions db a b)"
proof -
  have "\<not> nullish r" if "fld r ''follower'' = JStr a" for r
    using that by (cases r) auto
  then show ?thesis by (auto simp: stored_versions_def list_all_iff)
qed

lemma latest_of_stored:
  "latest_version rt (r # rs) = Inr (most_recent_from rt r rs)"
  if "r # rs = take 10 (stored_versions db a b)"
proof -
  have "list_all (\<lambda>r. \<not> nullish r) (take 10 (stored_versions db a b))"
    using stored_versions_not_nullish [of db a b]
    by (auto simp: list_all_iff dest: in_set_takeD)
  then have "list_all (\<lambda>r. \<not> nullish r) (r # rs)" by (simp only: that)
  then show ?thesis by (rule latest_version_most_recent)
qed

lemma most_recent_from_stored_not_nullish:
  "r # rs = take 10 (stored_versions db a b) \<Longrightarrow> \<not> nullish (most_recent_from rt r rs)"
proof -
  assume eq: "r # rs = take 10 (stored_versions db a b)"
  have "most_recent_from rt r rs \<in> set (r # rs)" by (rule most_recent_from_mem)
  then have "most_recent_from rt r rs \<in> set (stored_versions db a b)"
    unfolding eq by (rule in_set_takeD)
  with stored_versions_not_nullish [of db a b] show ?thesis by (simp add: list_all_iff)
qed

text \<open>
  \<^verbatim>\<open>isFollowing\<close> on the backing store: the status of the most recent of the first ten
  stored versions of the pair.
\<close>

lemma isFollowing_first_ten:
  assumes "db ''follows'' = Some rows"
  shows "isFollowing rt (execute ondb db) a b =
     (case most_recent rt (take 10 (stored_versions db a b)) of
        None \<Rightarrow> False
      | Some l \<Rightarrow> fld l ''status'' = JStr ''active'')"
proof (cases "take 10 (stored_versions db a b)")
  case Nil
  then show ?thesis
    using follows_query_result [of db rows a b] assms by (simp add: isFollowing_def ondb_def)
next
  case (Cons r rs)
  then have eq: "r # rs = take 10 (stored_versions db a b)" by simp
  show ?thesis
    using follows_query_result [of db rows a b] assms latest_of_stored [OF eq, of rt]
      most_recent_from_stored_not_nullish [OF eq, of rt]
    by (simp add: isFollowing_def ondb_def Cons js_get_def)
qed

text \<open>
  With at most ten stored versions of the pair, \<^verbatim>\<open>isFollowing\<close> is the status of the most
  recent stored version.
\<close>

lemma isFollowing_upto_ten:
  assumes "db ''follows'' = Some rows" and "length (stored_versions db a b) \<le> 10"
  shows "isFollowing rt (execute ondb db) a b = spec_isFollowing rt db a b"
  using isFollowing_first_ten [of db rows rt a b] assms(1) assms(2)
  by (simp add: spec_isFollowing_def)

lemma store_nothing:
  "store_one cl st coll (Inr None) = (False, st)"
  "store_one cl st coll (Inl e) = (False, st)"
  by (simp_all add: store_one_def)

lemma store_follows:
  "db ''follows'' = Some rows \<Longrightarrow>
   store_one ondb db ''follows'' (Inr (Some v)) = (True, db(''follows'' \<mapsto> rows @ [v]))"
  by (simp add: store_one_def ondb_def ondb_store_def)

text \<open>
  \<^verbatim>\<open>followUser\<close> and \<^verbatim>\<open>unfollowUser\<close> on the backing store, in terms of the most recent of the
  first ten stored versions of the pair.
\<close>

lemma followUser_first_ten:
  assumes "db ''follows'' = Some rows" and "a \<noteq> b"
  shows "followUser rt ondb db a b =
     (case most_recent rt (take 10 (stored_versions db a b)) of
        None \<Rightarrow>
          (True, db(''follows'' \<mapsto> rows @
             [follow_version
                (JStr (''follow_'' @ last8 a @ ''_'' @ last8 b @ ''_'' @ decimal (date_now rt)))
                a b ''active'' (JStr (toISOString rt)) (toISOString rt)]))
      | Some l \<Rightarrow>
          if fld l ''status'' = JStr ''active'' then (False, db)
          else (True, db(''follows'' \<mapsto> rows @
             [follow_version (fld l ''id'') a b ''active'' (fld l ''created_at'')
                (toISOString rt)])))"
proof (cases "take 10 (stored_versions db a b)")
  case Nil
  then show ?thesis
    using follows_query_result [of db rows a b] assms store_follows [of db rows]
    by (simp add: followUser_def follow_decision_def ondb_def)
next
  case (Cons r rs)
  then have eq: "r # rs = take 10 (stored_versions db a b)" by simp
  have q: "execute ondb db (follows_query a b) = Inr \<lparr>records = Rows (r # rs)\<rparr>"
    using follows_query_result [of db rows a b] assms(1) by (simp add: ondb_def Cons)
  have d: "follow_decision rt \<lparr>records = Rows (r # rs)\<rparr> a b =
      (if fld (most_recent_from rt r rs) ''status'' = JStr ''active'' then Inr None
       else Inr (Some (follow_version (fld (most_recent_from rt r rs) ''id'') a b ''active''
              (fld (most_recent_from rt r rs) ''created_at'') (toISOString rt))))"
    using latest_of_stored [OF eq, of rt] most_recent_from_stored_not_nullish [OF eq, of rt]
    by (simp add: follow_decision_def js_get_def)
  show ?thesis
    using assms store_follows [of db rows]
    by (simp add: followUser_def q d Cons store_nothing)
qed

lemma unfollowUser_first_ten:
  assumes "db ''follows'' = Some rows"
  shows "unfollowUser rt ondb db a b =
     (case most_recent rt (take 10 (stored_versions db a b)) of
        None \<Rightarrow> (False, db)
      | Some l \<Rightarrow>
          if fld l ''status'' \<noteq> JStr ''active'' then (False, db)
          else (True, db(''follows'' \<mapsto> rows @
             [follow_version (fld l ''id'') a b ''inactive'' (fld l ''created_at'')
                (toISOString rt)])))"
proof (cases "take 10 (stored_versions db a b)")
  case Nil
  then have q: "execute ondb db (follows_query a b) = Inr \<lparr>records = Rows []\<rparr>"
    using follows_query_result [of db rows a b] assms(1) by (simp add: ondb_def)
  show ?thesis
    by (simp add: unfollowUser_def q unfollow_decision_def Nil store_nothing)
next
  case (Cons r rs)
  then have eq: "r # rs = take 10 (stored_versions db a b)" by simp
  have q: "execute ondb db (follows_query a b) = Inr \<lparr>records = Rows (r # rs)\<rparr>"
    using follows_query_result [of db rows a b] assms(1) by (simp add: ondb_def Cons)
  have d: "unfollow_decision rt \<lparr>records = Rows (r # rs)\<rparr> a b =
      (if fld (most_recent_from rt r rs) ''status'' \<noteq> JStr ''active'' then Inr None
       else Inr (Some (follow_version (fld (most_recent_from rt r rs) ''id'') a b ''inactive''
              (fld (most_recent_from rt r rs) ''created_at'') (toISOString rt))))"
    using latest_of_stored [OF eq, of rt] most_recent_from_stored_not_nullish [OF eq, of rt]
    by (simp add: unfollow_decision_def js_get_def)
  show ?thesis
    using assms store_follows [of db rows]
    by (simp add: unfollowUser_def q d Cons store_nothing)
qed

lemma followUser_self: "followUser rt cl st a a = (False, st)"
  by (simp add: followUser_def)

text \<open>
  With at most ten stored versions of the pair, the two operations act on the most recent
  stored version.
\<close>

lemma follow_toggle_upto_ten:
  assumes "db ''follows'' = Some rows" and "length (stored_versions db a b) \<le> 10"
    and "most_recent rt (stored_versions db a b) = Some l"
  shows "a \<noteq> b \<Longrightarrow> followUser rt ondb db a b =
           (if fld l ''status'' = JStr ''active'' then (False, db)
            else (True, db(''follows'' \<mapsto> rows @
                    [follow_version (fld l ''id'') a b ''active'' (fld l ''created_at'')
                       (toISOString rt)])))"
    and "unfollowUser rt ondb db a b =
           (if fld l ''status'' \<noteq> JStr ''active'' then (False, db)
            else (True, db(''follows'' \<mapsto> rows @
                    [follow_version (fld l ''id'') a b ''inactive'' (fld l ''created_at'')
                       (toISOString rt)])))"
  using followUser_first_ten [of db rows a b rt] unfollowUser_first_ten [of db rows rt a b] assms
  by simp_all

text \<open>The two operations only ever append to the follows: no record is removed or changed.\<close>

lemma follow_toggle_appends:
  assumes "db ''follows'' = Some rows"
  shows "\<exists>new. length new \<le> 1 \<and> snd (followUser rt ondb db a b) = db(''follows'' \<mapsto> rows @ new)"
    and "\<exists>new. length new \<le> 1 \<and> snd (unfollowUser rt ondb db a b) = db(''follows'' \<mapsto> rows @ new)"
proof -
  have same: "db = db(''follows'' \<mapsto> rows @ [])" using assms by (simp add: fun_upd_idem)
  have none: "\<exists>new. length new \<le> 1 \<and> db = db(''follows'' \<mapsto> rows @ new)"
    using same by (intro exI [of _ "[]"]) simp
  have one: "\<exists>new. length new \<le> 1 \<and> db(''follows'' \<mapsto> rows @ [v]) = db(''follows'' \<mapsto> rows @ new)"
    for v by (intro exI [of _ "[v]"]) simp
  show "\<exists>new. length new \<le> 1 \<and> snd (followUser rt ondb db a b) = db(''follows'' \<mapsto> rows @ new)"
  proof (cases "a = b")
    case True
    with none show ?thesis by (simp add: followUser_self)
  next
    case False
    show ?thesis
      unfolding followUser_first_ten [of db rows a b rt, OF assms False]
      using none one by (simp split: option.splits)
  qed
  show "\<exists>new. length new \<le> 1 \<and> snd (unfollowUser rt ondb db a b) = db(''follows'' \<mapsto> rows @ new)"
    unfolding unfollowUser_first_ten [of db rows rt a b, OF assms]
    using none one by (simp split: option.splits)
qed

subsection \<open>The example with eleven versions\<close>

lemma db11'_stored: "stored_versions db11' ''u1'' ''u2'' = eleven_versions'"
  by (simp add: stored_versions_def db11'_def eleven_versions'_def version_fields)

lemma db11'_most_recent:
  "most_recent example_runtime eleven_versions' = Some (version 11 ''inactive'')"
  "most_recent example_runtime (take 10 eleven_versions') = Some (version 10 ''active'')"
  by (simp_all add: eleven_versions'_def version_fields more_recent_def version_times)

lemma db11_most_recent_of_ten:
  "most_recent example_runtime (take 10 eleven_versions) = Some (version 10 ''inactive'')"
  by (simp add: eleven_versions_def version_fields more_recent_def version_times)

lemma version_12: "version 12 s = follow_version (JStr ''f1'') ''u1'' ''u2'' s (JStr (day 1)) (toISOString example_runtime)"
  by (simp add: version_def example_runtime_def)

text \<open>
  C9.  \<^verbatim>\<open>followUser\<close> is meant to return false without storing when the latest version of
  the pair is active, and \<^verbatim>\<open>unfollowUser\<close> when it is not.  Both resolve the latest version
  among the first ten stored versions only.  On the eleven versions of the first example
  the latest version is active, and \<^verbatim>\<open>followUser\<close> stores a twelfth, active, version and
  returns true; on those of the second the latest version is inactive, and \<^verbatim>\<open>unfollowUser\<close>
  stores a twelfth, inactive, version and returns true.
\<close>

theorem followUser_eleven_versions:
  "most_recent example_runtime (stored_versions db11 ''u1'' ''u2'') = Some (version 11 ''active'') \<and>
   followUser example_runtime ondb db11 ''u1'' ''u2'' =
     (True, db11(''follows'' \<mapsto> eleven_versions @ [version 12 ''active''])) \<and>
   most_recent example_runtime (stored_versions db11' ''u1'' ''u2'') =
     Some (version 11 ''inactive'') \<and>
   unfollowUser example_runtime ondb db11' ''u1'' ''u2'' =
     (True, db11'(''follows'' \<mapsto> eleven_versions' @ [version 12 ''inactive'']))"
proof -
  have f: "db11 ''follows'' = Some eleven_versions" by (simp add: db11_def)
  have f': "db11' ''follows'' = Some eleven_versions'" by (simp add: db11'_def)
  have ne: "''u1'' \<noteq> ''u2''" by simp
  have "followUser example_runtime ondb db11 ''u1'' ''u2'' =
     (True, db11(''follows'' \<mapsto> eleven_versions @ [version 12 ''active'']))"
    unfolding followUser_first_ten [of db11 eleven_versions "''u1''" "''u2''" example_runtime, OF f ne]
      db11_stored db11_most_recent_of_ten
    by (simp add: version_fields version_12)
  moreover have "unfollowUser example_runtime ondb db11' ''u1'' ''u2'' =
     (True, db11'(''follows'' \<mapsto> eleven_versions' @ [version 12 ''inactive'']))"
    unfolding unfollowUser_first_ten [of db11' eleven_versions' example_runtime "''u1''" "''u2''", OF f']
      db11'_stored db11'_most_recent
    by (simp add: version_fields version_12)
  ultimately show ?thesis
    by (simp add: db11_stored db11_most_recent db11'_stored db11'_most_recent)
qed

text \<open>
  C2.  A follow-state mutation is meant to append a version that toggles the latest one:
  \<^verbatim>\<open>unfollowUser\<close> an inactive version when the latest is active, \<^verbatim>\<open>followUser\<close> an active
  version when the latest is inactive.  Both resolve the latest version among the first ten
  stored versions only.  On the eleven versions of the first example the latest version is
  active, and \<^verbatim>\<open>unfollowUser\<close> returns false and stores nothing; on those of the second the
  latest version is inactive, and \<^verbatim>\<open>followUser\<close> returns false and stores nothing.
\<close>

theorem toggle_eleven_versions:
  "most_recent example_runtime (stored_versions db11 ''u1'' ''u2'') = Some (version 11 ''active'') \<and>
   unfollowUser example_runtime ondb db11 ''u1'' ''u2'' = (False, db11) \<and>
   most_recent example_runtime (stored_versions db11' ''u1'' ''u2'') =
     Some (version 11 ''inactive'') \<and>
   followUser example_runtime ondb db11' ''u1'' ''u2'' = (False, db11')"
proof -
  have f: "db11 ''follows'' = Some eleven_versions" by (simp add: db11_def)
  have f': "db11' ''follows'' = Some eleven_versions'" by (simp add: db11'_def)
  have ne: "''u1'' \<noteq> ''u2''" by simp
  have "unfollowUser example_runtime ondb db11 ''u1'' ''u2'' = (False, db11)"
    unfolding unfollowUser_first_ten [of db11 eleven_versions example_runtime "''u1''" "''u2''", OF f]
      db11_stored db11_most_recent_of_ten
    by (simp add: version_fields)
  moreover have "followUser example_runtime ondb db11' ''u1'' ''u2'' = (False, db11')"
    unfolding followUser_first_ten [of db11' eleven_versions' "''u1''" "''u2''" example_runtime, OF f' ne]
      db11'_stored db11'_most_recent
    by (simp add: version_fields)
  ultimately show ?thesis
    by (simp add: db11_stored db11_most_recent db11'_stored db11'_most_recent)
qed

subsection \<open>Likes\<close>









end
